theory Spec2Isabelle
  imports Main
begin

section \<open>Values of the workflow file\<close>

text \<open>
  The workflow \<^verbatim>\<open>Machine Learning Unit Tests\<close> is a YAML document. Its scalars are
  strings, numbers, booleans and null. Every number of the file has at most two decimals
  (\<^verbatim>\<open>3.9\<close>, \<^verbatim>\<open>3.11\<close>, \<^verbatim>\<open>3.12\<close>, \<^verbatim>\<open>3.13\<close>), so a number is kept as its
  count of hundredths: \<^verbatim>\<open>3.9\<close> is \<open>Num 390\<close>. The quoted \<^verbatim>\<open>'3.10'\<close> is a string.
\<close>

datatype scalar = Num nat | Str string | Bool bool | Null

definition digit :: "nat \<Rightarrow> char" where
  "digit n = ''0123456789'' ! (n mod 10)"

fun show_nat :: "nat \<Rightarrow> string" where
  "show_nat n = (if n < 10 then [digit n] else show_nat (n div 10) @ [digit n])"

declare show_nat.simps [simp del]

text \<open>A number is printed with its shortest decimal form: no trailing zeros.\<close>

definition show_num :: "nat \<Rightarrow> string" where
  "show_num h =
     show_nat (h div 100) @
       (if h mod 100 = 0 then []
        else if h mod 10 = 0 then ''.'' @ [digit (h div 10)]
        else ''.'' @ [digit (h div 10), digit h])"

fun to_string :: "scalar \<Rightarrow> string" where
  "to_string (Str s) = s"
| "to_string (Num h) = show_num h"
| "to_string (Bool b) = (if b then ''true'' else ''false'')"
| "to_string Null = []"

section \<open>Build matrices\<close>

text \<open>
  A \<^verbatim>\<open>strategy.matrix\<close> has axes (a key with a list of values) and an \<^verbatim>\<open>include\<close>
  list of objects. A combination assigns one value to each key.
\<close>

type_synonym combo = "(string \<times> scalar) list"

record matrix =
  axes :: "(string \<times> scalar list) list"
  inclusions :: "combo list"

fun product_axes :: "(string \<times> scalar list) list \<Rightarrow> combo list" where
  "product_axes [] = [[]]"
| "product_axes ((k, vs) # rest) =
     concat (map (\<lambda>v. map (\<lambda>c. (k, v) # c) (product_axes rest)) vs)"

text \<open>
  An included object fits a combination of the product when none of its pairs would
  overwrite a value of the combination. It is then merged into every combination it fits;
  an object that fits none becomes a combination of its own.
\<close>

definition fits :: "combo \<Rightarrow> combo \<Rightarrow> bool" where
  "fits obj c = list_all (\<lambda>(k, v). case map_of c k of None \<Rightarrow> True | Some w \<Rightarrow> w = v) obj"

definition merge_obj :: "combo \<Rightarrow> combo \<Rightarrow> combo" where
  "merge_obj obj extra = filter (\<lambda>(k, v). k \<notin> fst ` set obj) extra @ obj"

text \<open>
  The state of the expansion: the combinations of the product, each with the pairs
  added to it so far, and the combinations created by \<^verbatim>\<open>include\<close>.
\<close>

fun add_include :: "(combo \<times> combo) list \<times> combo list \<Rightarrow> combo \<Rightarrow> (combo \<times> combo) list \<times> combo list" where
  "add_include (base, created) obj =
     (if list_ex (\<lambda>(c, extra). fits obj c) base
      then (map (\<lambda>(c, extra). if fits obj c
                                then (c, merge_obj (filter (\<lambda>(k, v). map_of c k = None) obj) extra)
                                else (c, extra)) base, created)
      else (base, created @ [obj]))"

definition expand :: "matrix \<Rightarrow> combo list" where
  "expand m =
     (let base = (if axes m = [] then [] else map (\<lambda>c. (c, [])) (product_axes (axes m)));
          (base', created) = foldl add_include (base, []) (inclusions m)
      in map (\<lambda>(c, extra). c @ extra) base' @ created)"

subsection \<open>The matrices of the four jobs\<close>

definition checks_matrix :: matrix where
  "checks_matrix =
     \<lparr> axes = [(''os'', [Str ''ubuntu-latest'']), (''python-version'', [Num 390])],
       inclusions = [] \<rparr>"

definition machine_learning_matrix :: matrix where
  "machine_learning_matrix =
     \<lparr> axes = [(''os'', [Str ''ubuntu-latest'']),
               (''python-version'', [Num 390, Str ''3.10'', Num 311, Num 312, Num 313])],
       inclusions = [[(''os'', Str ''macos-latest''), (''python-version'', Num 390)],
                     [(''os'', Str ''macos-latest''), (''python-version'', Num 313)],
                     [(''os'', Str ''windows-latest''), (''python-version'', Num 390)],
                     [(''os'', Str ''windows-latest''), (''python-version'', Num 313)]] \<rparr>"

definition tutorials_matrix :: matrix where
  "tutorials_matrix =
     \<lparr> axes = [(''os'', [Str ''ubuntu-latest'']), (''python-version'', [Num 390, Num 313])],
       inclusions = [] \<rparr>"

definition coverage_matrix :: matrix where
  "coverage_matrix = \<lparr> axes = [(''python-version'', [Num 390])], inclusions = [] \<rparr>"

text \<open>A combination as a pair of operating system and version, both as printed.\<close>

definition point :: "combo \<Rightarrow> string \<times> string" where
  "point c =
     (case map_of c ''os'' of None \<Rightarrow> [] | Some v \<Rightarrow> to_string v,
      case map_of c ''python-version'' of None \<Rightarrow> [] | Some v \<Rightarrow> to_string v)"

definition is_linux :: "scalar \<Rightarrow> bool" where
  "is_linux v = (v = Str ''ubuntu-latest'')"

section \<open>Expressions\<close>

text \<open>
  The expressions between \<^verbatim>\<open>${{\<close> and \<^verbatim>\<open>}}\<close>: literals, the \<^verbatim>\<open>matrix\<close> and \<^verbatim>\<open>github\<close>
  contexts, \<^verbatim>\<open>==\<close>, \<^verbatim>\<open>&&\<close>, \<^verbatim>\<open>!\<close>, \<^verbatim>\<open>startsWith\<close> and the four status functions.
\<close>

datatype expr =
    Lit scalar
  | MatrixVal string
  | GithubVal string
  | Eq expr expr
  | And expr expr
  | Not expr
  | StartsWith expr expr
  | Success
  | Failure
  | Cancelled
  | Always

datatype job_status = StatusSuccess | StatusFailure | StatusCancelled

record contexts =
  ctx_matrix :: combo
  ctx_github :: "string \<Rightarrow> scalar"
  ctx_status :: job_status

fun truthy :: "scalar \<Rightarrow> bool" where
  "truthy (Bool b) = b"
| "truthy (Num h) = (h \<noteq> 0)"
| "truthy (Str s) = (s \<noteq> [])"
| "truthy Null = False"

text \<open>Strings are compared without regard to case.\<close>

definition lower_char :: "char \<Rightarrow> char" where
  "lower_char c =
     (case map_of (zip ''ABCDEFGHIJKLMNOPQRSTUVWXYZ'' ''abcdefghijklmnopqrstuvwxyz'') c of
        None \<Rightarrow> c
      | Some d \<Rightarrow> d)"

definition lower :: "string \<Rightarrow> string" where
  "lower s = map lower_char s"

text \<open>
  A string read as a number, in hundredths: digits, then optionally a point and
  digits. The empty string is zero. \<open>None\<close> is NaN, and also stands for the numbers
  that hundredths cannot hold (a sign, an exponent, a third decimal other than zero).
\<close>

definition digit_val :: "char \<Rightarrow> nat option" where
  "digit_val c =
     (let n = of_char c :: nat in if 48 \<le> n \<and> n \<le> 57 then Some (n - 48) else None)"

fun parse_digits :: "nat \<Rightarrow> string \<Rightarrow> nat option" where
  "parse_digits acc [] = Some acc"
| "parse_digits acc (c # cs) =
     (case digit_val c of None \<Rightarrow> None | Some d \<Rightarrow> parse_digits (10 * acc + d) cs)"

definition parse_nat :: "string \<Rightarrow> nat option" where
  "parse_nat s = (if s = [] then None else parse_digits 0 s)"

definition parse_fraction :: "string \<Rightarrow> nat option" where
  "parse_fraction fr =
     (if fr = [] \<or> \<not> list_all (\<lambda>c. c = CHR ''0'') (drop 2 fr) then None
      else parse_nat (take 2 (fr @ ''0'')))"

definition parse_num :: "string \<Rightarrow> nat option" where
  "parse_num s =
     (if s = [] then Some 0
      else
        (let ip = takeWhile (\<lambda>c. c \<noteq> CHR ''.'') s;
             rest = dropWhile (\<lambda>c. c \<noteq> CHR ''.'') s
         in (case parse_nat ip of
               None \<Rightarrow> None
             | Some i \<Rightarrow>
                 (if rest = [] then Some (100 * i)
                  else (case parse_fraction (tl rest) of
                          None \<Rightarrow> None
                        | Some f \<Rightarrow> Some (100 * i + f))))))"

fun to_number :: "scalar \<Rightarrow> nat option" where
  "to_number (Num h) = Some h"
| "to_number (Bool b) = Some (if b then 100 else 0)"
| "to_number Null = Some 0"
| "to_number (Str s) = parse_num s"

text \<open>
  \<^verbatim>\<open>==\<close> is loose: two strings are compared as strings, and any other two values
  as numbers (for two numbers, two booleans or two nulls this is plain equality). NaN
  equals nothing.
\<close>

definition loose_eq :: "scalar \<Rightarrow> scalar \<Rightarrow> bool" where
  "loose_eq a b =
     (case (a, b) of
        (Str s, Str t) \<Rightarrow> lower s = lower t
      | _ \<Rightarrow> (case to_number a of
                None \<Rightarrow> False
              | Some h \<Rightarrow> (case to_number b of None \<Rightarrow> False | Some k \<Rightarrow> h = k)))"

definition starts_with :: "string \<Rightarrow> string \<Rightarrow> bool" where
  "starts_with s p = (take (length p) (lower s) = lower p)"

fun eval :: "contexts \<Rightarrow> expr \<Rightarrow> scalar" where
  "eval ctx (Lit v) = v"
| "eval ctx (MatrixVal k) = (case map_of (ctx_matrix ctx) k of None \<Rightarrow> Null | Some v \<Rightarrow> v)"
| "eval ctx (GithubVal k) = ctx_github ctx k"
| "eval ctx (Eq a b) = Bool (loose_eq (eval ctx a) (eval ctx b))"
| "eval ctx (And a b) = (if truthy (eval ctx a) then eval ctx b else eval ctx a)"
| "eval ctx (Not a) = Bool (\<not> truthy (eval ctx a))"
| "eval ctx (StartsWith a b) =
     Bool (starts_with (to_string (eval ctx a)) (to_string (eval ctx b)))"
| "eval ctx Success = Bool (ctx_status ctx = StatusSuccess)"
| "eval ctx Failure = Bool (ctx_status ctx = StatusFailure)"
| "eval ctx Cancelled = Bool (ctx_status ctx = StatusCancelled)"
| "eval ctx Always = Bool True"

text \<open>A string with embedded expressions, such as \<^verbatim>\<open>${{ matrix.os }}-${{ matrix.python-version }}\<close>.\<close>

datatype part = Text string | Sub expr

fun render_part :: "contexts \<Rightarrow> part \<Rightarrow> string" where
  "render_part ctx (Text s) = s"
| "render_part ctx (Sub e) = to_string (eval ctx e)"

definition render :: "contexts \<Rightarrow> part list \<Rightarrow> string" where
  "render ctx ps = concat (map (render_part ctx) ps)"

text \<open>
  An \<^verbatim>\<open>if\<close> that calls no status function is read as \<^verbatim>\<open>success() && (...)\<close>, and a
  step without \<^verbatim>\<open>if\<close> runs on \<^verbatim>\<open>success()\<close>.
\<close>

fun has_status :: "expr \<Rightarrow> bool" where
  "has_status Success = True"
| "has_status Failure = True"
| "has_status Cancelled = True"
| "has_status Always = True"
| "has_status (Eq a b) = (has_status a \<or> has_status b)"
| "has_status (And a b) = (has_status a \<or> has_status b)"
| "has_status (Not a) = has_status a"
| "has_status (StartsWith a b) = (has_status a \<or> has_status b)"
| "has_status _ = False"

definition effective :: "expr option \<Rightarrow> expr" where
  "effective c =
     (case c of None \<Rightarrow> Success | Some e \<Rightarrow> if has_status e then e else And Success e)"

section \<open>Steps and their scripts\<close>

text \<open>
  A \<^verbatim>\<open>run\<close> script is a list of shell commands, one a line. \<open>Ext\<close> is a simple
  command, given by its words; \<open>OrList a b\<close> is \<^verbatim>\<open>a || b\<close>; \<open>TrueCmd\<close> is the
  builtin \<^verbatim>\<open>true\<close>. \<open>Opaque n\<close> stands for the shell text that starts at line \<open>n\<close>
  of the workflow file and is not taken apart (redirections, command substitutions, an
  \<^verbatim>\<open>if\<close> block, escape sequences).
\<close>

datatype cmd = Ext "string list" | TrueCmd | OrList cmd cmd | Opaque nat

text \<open>
  The body of a step: a script, or an action. The two artifact actions keep their
  \<^verbatim>\<open>name\<close> and \<^verbatim>\<open>path\<close> inputs; the inputs of the other actions are left out.
\<close>

datatype body =
    Run "cmd list"
  | Uses string
  | Upload "part list" string
  | Download "part list" string

record step =
  label :: string
  condition :: "expr option"
  body :: body

text \<open>
  The files a command leaves behind when it succeeds, as far as its words tell:
  \<^verbatim>\<open>mv a b\<close> leaves \<open>b\<close>, \<^verbatim>\<open>python tool -output f\<close> leaves \<open>f\<close> and
  \<^verbatim>\<open>tar -zcvf f\<close> leaves \<open>f\<close>. A relative path is taken from the working
  directory, which \<^verbatim>\<open>cd\<close> changes; the empty directory name is the workspace.
\<close>

fun option_values :: "string \<Rightarrow> string list \<Rightarrow> string list" where
  "option_values opt (a # b # ws) =
     (if a = opt then b # option_values opt ws else option_values opt (b # ws))"
| "option_values opt _ = []"

definition resolve :: "string \<Rightarrow> string \<Rightarrow> string" where
  "resolve cwd f = (if cwd = [] \<or> take 1 f = ''/'' then f else cwd @ ''/'' @ f)"

definition outputs :: "string \<Rightarrow> string list \<Rightarrow> string list" where
  "outputs cwd ws =
     (case ws of
        [] \<Rightarrow> []
      | w # args \<Rightarrow>
          if w = ''mv'' \<and> args \<noteq> [] then [resolve cwd (last args)]
          else if w = ''python'' then map (resolve cwd) (option_values ''-output'' args)
          else if w = ''tar'' then map (resolve cwd) (option_values ''-zcvf'' args)
          else [])"

definition new_cwd :: "string \<Rightarrow> string list \<Rightarrow> string" where
  "new_cwd cwd ws = (case ws of [w, d] \<Rightarrow> if w = ''cd'' then resolve cwd d else cwd | _ \<Rightarrow> cwd)"

text \<open>
  The exit status of an external command is not decided by the workflow: the oracle
  \<open>ex\<close> gives it. A script runs under \<^verbatim>\<open>bash -e\<close>: it stops at the first line that
  exits nonzero. The result is the exit status, the files left behind and the working
  directory.
\<close>

fun exec_cmd :: "(cmd \<Rightarrow> nat) \<Rightarrow> string \<Rightarrow> cmd \<Rightarrow> nat \<times> string list \<times> string" where
  "exec_cmd ex cwd (Ext ws) =
     (if ex (Ext ws) = 0 then (0, outputs cwd ws, new_cwd cwd ws) else (ex (Ext ws), [], cwd))"
| "exec_cmd ex cwd (Opaque n) = (ex (Opaque n), [], cwd)"
| "exec_cmd ex cwd TrueCmd = (0, [], cwd)"
| "exec_cmd ex cwd (OrList a b) =
     (case exec_cmd ex cwd a of
        (r, fs, d) \<Rightarrow>
          if r = 0 then (0, fs, d)
          else (case exec_cmd ex d b of (r', fs', d') \<Rightarrow> (r', fs @ fs', d')))"

fun run_script :: "(nat \<Rightarrow> cmd \<Rightarrow> nat) \<Rightarrow> nat \<Rightarrow> string \<Rightarrow> cmd list \<Rightarrow> nat \<times> string list" where
  "run_script ex j cwd [] = (0, [])"
| "run_script ex j cwd (c # cs) =
     (case exec_cmd (ex j) cwd c of
        (r, fs, d) \<Rightarrow>
          if r \<noteq> 0 then (r, fs)
          else (case run_script ex (Suc j) d cs of (r', fs') \<Rightarrow> (r', fs @ fs')))"

text \<open>
  The pattern of an upload path: \<^verbatim>\<open>dir/*\<close> takes the files directly in \<open>dir\<close>, any
  other path takes the file of that name.
\<close>

definition path_match :: "string \<Rightarrow> string \<Rightarrow> bool" where
  "path_match pat f =
     (if 2 \<le> length pat \<and> drop (length pat - 2) pat = ''/*''
      then (let d = take (length pat - 1) pat
            in take (length d) f = d \<and> drop (length d) f \<noteq> [] \<and>
               CHR ''/'' \<notin> set (drop (length d) f))
      else f = pat)"

section \<open>Running the steps of a job\<close>

text \<open>
  What the workflow does not decide about one run of a job: the matrix combination, the
  \<^verbatim>\<open>github\<close> context, the step at which a cancellation of the run takes effect (if any),
  the exit status of every command (by step and line) and whether the action of a step
  succeeds.
\<close>

record run_env =
  env_matrix :: combo
  env_github :: "string \<Rightarrow> scalar"
  cancelled_from :: "nat option"
  exit_code :: "nat \<Rightarrow> nat \<Rightarrow> cmd \<Rightarrow> nat"
  action_ok :: "nat \<Rightarrow> bool"

datatype outcome = Skipped | Succeeded | Failed

record job_state =
  failed :: bool
  files :: "string list"
  uploaded :: "(string \<times> string list) list"
  log :: "outcome list"

definition init_state :: job_state where
  "init_state = \<lparr> failed = False, files = [], uploaded = [], log = [] \<rparr>"

definition is_cancelled :: "run_env \<Rightarrow> nat \<Rightarrow> bool" where
  "is_cancelled env i = (case cancelled_from env of None \<Rightarrow> False | Some c \<Rightarrow> c \<le> i)"

definition status_at :: "run_env \<Rightarrow> nat \<Rightarrow> job_state \<Rightarrow> job_status" where
  "status_at env i st =
     (if is_cancelled env i then StatusCancelled
      else if failed st then StatusFailure
      else StatusSuccess)"

definition context_at :: "run_env \<Rightarrow> nat \<Rightarrow> job_state \<Rightarrow> contexts" where
  "context_at env i st =
     \<lparr> ctx_matrix = env_matrix env, ctx_github = env_github env,
       ctx_status = status_at env i st \<rparr>"

definition should_run :: "run_env \<Rightarrow> nat \<Rightarrow> job_state \<Rightarrow> step \<Rightarrow> bool" where
  "should_run env i st s = truthy (eval (context_at env i st) (effective (condition s)))"

definition succeed :: "job_state \<Rightarrow> job_state" where
  "succeed st = st\<lparr>log := log st @ [Succeeded]\<rparr>"

definition fail :: "job_state \<Rightarrow> job_state" where
  "fail st = st\<lparr>failed := True, log := log st @ [Failed]\<rparr>"

text \<open>
  A step that fails makes the job fail. An upload stores, under the rendered name, the
  files that match its path; when no file matches, nothing is stored and the step still
  succeeds.
\<close>

definition run_body :: "run_env \<Rightarrow> nat \<Rightarrow> job_state \<Rightarrow> body \<Rightarrow> job_state" where
  "run_body env i st b =
     (case b of
        Run sc \<Rightarrow>
          (case run_script (exit_code env i) 0 [] sc of
             (r, fs) \<Rightarrow>
               if r = 0 then succeed (st\<lparr>files := remdups (files st @ fs)\<rparr>)
               else fail (st\<lparr>files := remdups (files st @ fs)\<rparr>))
      | Uses a \<Rightarrow> if action_ok env i then succeed st else fail st
      | Download n p \<Rightarrow> if action_ok env i then succeed st else fail st
      | Upload n p \<Rightarrow>
          if action_ok env i
          then (let fs = filter (path_match p) (files st)
                in succeed (if fs = [] then st
                            else st\<lparr>uploaded := uploaded st @ [(render (context_at env i st) n, fs)]\<rparr>))
          else fail st)"

definition run_step :: "run_env \<Rightarrow> nat \<Rightarrow> job_state \<Rightarrow> step \<Rightarrow> job_state" where
  "run_step env i st s =
     (if should_run env i st s then run_body env i st (body s)
      else st\<lparr>log := log st @ [Skipped]\<rparr>)"

fun run_steps :: "run_env \<Rightarrow> nat \<Rightarrow> job_state \<Rightarrow> step list \<Rightarrow> job_state" where
  "run_steps env i st [] = st"
| "run_steps env i st (s # ss) = run_steps env (Suc i) (run_step env i st s) ss"

definition run_job :: "run_env \<Rightarrow> step list \<Rightarrow> job_state" where
  "run_job env ss = run_steps env 0 init_state ss"

text \<open>The outcome of step \<open>i\<close> in a run of the job.\<close>

definition outcome_of :: "run_env \<Rightarrow> step list \<Rightarrow> nat \<Rightarrow> outcome" where
  "outcome_of env ss i = log (run_job env ss) ! i"

definition executes :: "run_env \<Rightarrow> step list \<Rightarrow> nat \<Rightarrow> bool" where
  "executes env ss i = (i < length ss \<and> outcome_of env ss i \<noteq> Skipped)"

text \<open>The state in which step \<open>k\<close> of a job starts, and what the step then does.\<close>

definition state_before :: "run_env \<Rightarrow> step list \<Rightarrow> nat \<Rightarrow> job_state" where
  "state_before env ss k = run_steps env 0 init_state (take k ss)"

definition step_outcome :: "run_env \<Rightarrow> nat \<Rightarrow> job_state \<Rightarrow> step \<Rightarrow> outcome" where
  "step_outcome env i st s = last (log (run_step env i st s))"

section \<open>The workflow\<close>

subsection \<open>Conditions used by several steps\<close>

text \<open>\<^verbatim>\<open>!startsWith(github.ref, 'refs/heads/stable') && !startsWith(github.base_ref, 'stable/')\<close>\<close>

definition not_stable :: expr where
  "not_stable =
     And (Not (StartsWith (GithubVal ''ref'') (Lit (Str ''refs/heads/stable''))))
         (Not (StartsWith (GithubVal ''base_ref'') (Lit (Str ''stable/''))))"

text \<open>\<^verbatim>\<open>!cancelled()\<close>\<close>

definition not_cancelled :: expr where
  "not_cancelled = Not Cancelled"

text \<open>\<^verbatim>\<open>matrix.os == 'ubuntu-latest' && matrix.python-version == 3.9\<close>\<close>

definition coverage_condition :: expr where
  "coverage_condition =
     And (Eq (MatrixVal ''os'') (Lit (Str ''ubuntu-latest'')))
         (Eq (MatrixVal ''python-version'') (Lit (Num 390)))"

text \<open>
  \<^verbatim>\<open>matrix.python-version == 3.9 && !startsWith(github.ref, 'refs/heads/stable') && !startsWith(github.base_ref, 'stable/')\<close>,
  as written on the step \<^verbatim>\<open>Run stable tutorials\<close> and again on the step
  \<^verbatim>\<open>Run upload stable tutorials\<close>.
\<close>

definition stable_build_condition :: expr where
  "stable_build_condition =
     And (And (Eq (MatrixVal ''python-version'') (Lit (Num 390)))
              (Not (StartsWith (GithubVal ''ref'') (Lit (Str ''refs/heads/stable'')))))
         (Not (StartsWith (GithubVal ''base_ref'') (Lit (Str ''stable/''))))"

definition stable_upload_condition :: expr where
  "stable_upload_condition =
     And (And (Eq (MatrixVal ''python-version'') (Lit (Num 390)))
              (Not (StartsWith (GithubVal ''ref'') (Lit (Str ''refs/heads/stable'')))))
         (Not (StartsWith (GithubVal ''base_ref'') (Lit (Str ''stable/''))))"

subsection \<open>The steps of the job Checks\<close>

definition checks_steps :: "step list" where
  "checks_steps =
     [\<lparr> label = ''Print Concurrency Group'', condition = None,
        body = Run [Opaque 44, Opaque 45] \<rparr>,
      \<lparr> label = ''actions/checkout@v4'', condition = None,
        body = Uses ''actions/checkout@v4'' \<rparr>,
      \<lparr> label = ''actions/setup-python@v5'', condition = None,
        body = Uses ''actions/setup-python@v5'' \<rparr>,
      \<lparr> label = ''./.github/actions/install-main-dependencies'', condition = Some not_stable,
        body = Uses ''./.github/actions/install-main-dependencies'' \<rparr>,
      \<lparr> label = ''./.github/actions/install-machine-learning'', condition = None,
        body = Uses ''./.github/actions/install-machine-learning'' \<rparr>,
      \<lparr> label = ''Install Dependencies'', condition = None,
        body = Run [Ext [''pip'', ''install'', ''torchvision''],
                    Ext [''sudo'', ''apt-get'', ''-y'', ''install'', ''pandoc'', ''graphviz''],
                    Ext [''sudo'', ''apt-get'', ''-y'', ''install'', ''python3-enchant''],
                    Ext [''sudo'', ''apt-get'', ''-y'', ''install'', ''hunspell-en-us''],
                    Ext [''pip'', ''install'', ''pyenchant''],
                    Opaque 72] \<rparr>,
      \<lparr> label = ''pip check'', condition = Some not_cancelled,
        body = Run [Ext [''pip'', ''check'']] \<rparr>,
      \<lparr> label = ''Copyright Check'', condition = Some not_cancelled,
        body = Run [Ext [''python'', ''tools/check_copyright.py'', ''-check'']] \<rparr>,
      \<lparr> label = ''make spell'', condition = Some not_cancelled,
        body = Run [Ext [''make'', ''spell'']] \<rparr>,
      \<lparr> label = ''Style Check'', condition = Some not_cancelled,
        body = Run [Ext [''make'', ''clean_sphinx''], Ext [''make'', ''style'']] \<rparr>,
      \<lparr> label = ''Run make html'', condition = Some not_cancelled,
        body = Run [Ext [''make'', ''clean_sphinx''],
                    Ext [''make'', ''html''],
                    Ext [''cd'', ''docs/_build/html''],
                    Ext [''mkdir'', ''artifacts''],
                    Ext [''tar'', ''-zcvf'', ''artifacts/documentation.tar.gz'',
                         ''--exclude=./artifacts'', ''.'']] \<rparr>,
      \<lparr> label = ''Run upload documentation'', condition = Some not_cancelled,
        body = Upload [Text ''documentation'']
                      ''docs/_build/html/artifacts/documentation.tar.gz'' \<rparr>,
      \<lparr> label = ''make doctest'', condition = Some not_cancelled,
        body = Run [Ext [''make'', ''doctest'']] \<rparr>]"

subsection \<open>The steps of the job MachineLearning\<close>

definition machine_learning_steps :: "step list" where
  "machine_learning_steps =
     [\<lparr> label = ''actions/checkout@v4'', condition = None,
        body = Uses ''actions/checkout@v4'' \<rparr>,
      \<lparr> label = ''actions/setup-python@v5'', condition = None,
        body = Uses ''actions/setup-python@v5'' \<rparr>,
      \<lparr> label = ''./.github/actions/install-main-dependencies'', condition = Some not_stable,
        body = Uses ''./.github/actions/install-main-dependencies'' \<rparr>,
      \<lparr> label = ''./.github/actions/install-machine-learning'', condition = None,
        body = Uses ''./.github/actions/install-machine-learning'' \<rparr>,
      \<lparr> label = ''make lint'', condition = None,
        body = Run [Ext [''make'', ''lint'']] \<rparr>,
      \<lparr> label = ''make mypy'', condition = Some not_cancelled,
        body = Run [Ext [''make'', ''mypy'']] \<rparr>,
      \<lparr> label = ''Machine Learning Unit Tests under Python ${{ matrix.python-version }}'',
        condition = Some not_cancelled,
        body = Uses ''./.github/actions/run-tests'' \<rparr>,
      \<lparr> label = ''Deprecation Messages'', condition = None,
        body = Run [Ext [''mkdir'', ''./ci-artifact-data''],
                    Ext [''python'', ''tools/extract_deprecation.py'', ''-file'', ''out.txt'',
                         ''-output'', ''./ci-artifact-data/ml.dep'']] \<rparr>,
      \<lparr> label = ''Coverage combine'', condition = Some coverage_condition,
        body = Run [Ext [''coverage3'', ''combine''],
                    Ext [''mv'', ''.coverage'', ''./ci-artifact-data/ml.dat'']] \<rparr>,
      \<lparr> label = ''actions/upload-artifact@v4'', condition = None,
        body = Upload [Sub (MatrixVal ''os''), Text ''-'', Sub (MatrixVal ''python-version'')]
                      ''./ci-artifact-data/*'' \<rparr>,
      \<lparr> label = ''Machine Learning Unit Tests without torch/sparse under Python ${{ matrix.python-version }}'',
        condition = Some not_cancelled,
        body = Run [Ext [''pip'', ''uninstall'', ''-y'', ''torch'', ''sparse''],
                    Opaque 175,
                    Ext [''stestr'', ''--test-path'', ''test'', ''run'']] \<rparr>]"

subsection \<open>The steps of the job Tutorials\<close>

definition tutorials_steps :: "step list" where
  "tutorials_steps =
     [\<lparr> label = ''actions/checkout@v4'', condition = None,
        body = Uses ''actions/checkout@v4'' \<rparr>,
      \<lparr> label = ''actions/setup-python@v5'', condition = None,
        body = Uses ''actions/setup-python@v5'' \<rparr>,
      \<lparr> label = ''./.github/actions/install-main-dependencies'', condition = Some not_stable,
        body = Uses ''./.github/actions/install-main-dependencies'' \<rparr>,
      \<lparr> label = ''./.github/actions/install-machine-learning'', condition = None,
        body = Uses ''./.github/actions/install-machine-learning'' \<rparr>,
      \<lparr> label = ''Install Dependencies'', condition = None,
        body = Run [Ext [''pip'', ''install'', ''jupyter''],
                    Ext [''pip'', ''install'', ''torchvision''],
                    Ext [''sudo'', ''apt-get'', ''install'', ''-y'', ''pandoc'', ''graphviz'']] \<rparr>,
      \<lparr> label = ''Run Machine Learning Tutorials'', condition = None,
        body = Run [Opaque 217,
                    Ext [''make'', ''html''],
                    Ext [''cd'', ''docs/_build/html''],
                    Ext [''mkdir'', ''artifacts''],
                    Ext [''tar'', ''-zcvf'', ''artifacts/tutorials.tar.gz'',
                         ''--exclude=./artifacts'', ''.'']] \<rparr>,
      \<lparr> label = ''Run upload tutorials'', condition = None,
        body = Upload [Text ''tutorials'', Sub (MatrixVal ''python-version'')]
                      ''docs/_build/html/artifacts/tutorials.tar.gz'' \<rparr>,
      \<lparr> label = ''Run stable tutorials'', condition = Some stable_build_condition,
        body = Run [Ext [''make'', ''clean_sphinx''],
                    Opaque 236,
                    Opaque 238,
                    Ext [''unzip'', ''/tmp/repo.zip'', ''-d'', ''/tmp/''],
                    Opaque 241,
                    Opaque 243,
                    Ext [''tools/ignore_untagged_notes.sh''],
                    Ext [''make'', ''html''],
                    Ext [''cd'', ''docs/_build/html''],
                    Ext [''mkdir'', ''artifacts''],
                    Ext [''tar'', ''-zcvf'', ''artifacts/tutorials.tar.gz'',
                         ''--exclude=./artifacts'', ''.'']] \<rparr>,
      \<lparr> label = ''Run upload stable tutorials'', condition = Some stable_upload_condition,
        body = Upload [Text ''tutorials-stable'', Sub (MatrixVal ''python-version'')]
                      ''docs/_build/html/artifacts/tutorials.tar.gz'' \<rparr>]"

subsection \<open>The steps of the job Deprecation\_Messages\_and\_Coverage\<close>

definition coverage_steps :: "step list" where
  "coverage_steps =
     [\<lparr> label = ''actions/checkout@v4'', condition = None,
        body = Uses ''actions/checkout@v4'' \<rparr>,
      \<lparr> label = ''actions/setup-python@v5'', condition = None,
        body = Uses ''actions/setup-python@v5'' \<rparr>,
      \<lparr> label = ''actions/download-artifact@v4'', condition = None,
        body = Download [Text ''ubuntu-latest-3.9''] ''/tmp/u39'' \<rparr>,
      \<lparr> label = ''actions/download-artifact@v4'', condition = None,
        body = Download [Text ''ubuntu-latest-3.10''] ''/tmp/u310'' \<rparr>,
      \<lparr> label = ''actions/download-artifact@v4'', condition = None,
        body = Download [Text ''ubuntu-latest-3.11''] ''/tmp/u311'' \<rparr>,
      \<lparr> label = ''actions/download-artifact@v4'', condition = None,
        body = Download [Text ''ubuntu-latest-3.12''] ''/tmp/u312'' \<rparr>,
      \<lparr> label = ''actions/download-artifact@v4'', condition = None,
        body = Download [Text ''ubuntu-latest-3.13''] ''/tmp/u313'' \<rparr>,
      \<lparr> label = ''actions/download-artifact@v4'', condition = None,
        body = Download [Text ''macos-latest-3.9''] ''/tmp/m39'' \<rparr>,
      \<lparr> label = ''actions/download-artifact@v4'', condition = None,
        body = Download [Text ''macos-latest-3.13''] ''/tmp/m313'' \<rparr>,
      \<lparr> label = ''actions/download-artifact@v4'', condition = None,
        body = Download [Text ''windows-latest-3.9''] ''/tmp/w39'' \<rparr>,
      \<lparr> label = ''actions/download-artifact@v4'', condition = None,
        body = Download [Text ''windows-latest-3.13''] ''/tmp/w313'' \<rparr>,
      \<lparr> label = ''Install Dependencies'', condition = None,
        body = Run [Ext [''pip'', ''install'', ''-U'', ''coverage'', ''coveralls'', ''diff-cover'']] \<rparr>,
      \<lparr> label = ''Combined Deprecation Messages'', condition = None,
        body = Run [OrList
                      (Ext [''sort'', ''-f'', ''-u'',
                            ''/tmp/u39/ml.dep'', ''/tmp/u310/ml.dep'', ''/tmp/u311/ml.dep'',
                            ''/tmp/u312/ml.dep'', ''/tmp/u313/ml.dep'', ''/tmp/m39/ml.dep'',
                            ''/tmp/m313/ml.dep'', ''/tmp/w39/ml.dep'', ''/tmp/w313/ml.dep''])
                      TrueCmd] \<rparr>,
      \<lparr> label = ''Coverage combine'', condition = None,
        body = Run [Ext [''coverage3'', ''combine'', ''/tmp/u39/ml.dat'']] \<rparr>,
      \<lparr> label = ''Upload to Coveralls'', condition = None,
        body = Run [Ext [''coveralls'', ''--service=github'']] \<rparr>]"

subsection \<open>The jobs\<close>

record job =
  job_id :: string
  needs :: "string list"
  fail_fast :: bool
  strategy :: matrix
  steps :: "step list"

definition workflow_jobs :: "job list" where
  "workflow_jobs =
     [\<lparr> job_id = ''Checks'', needs = [], fail_fast = True,
        strategy = checks_matrix, steps = checks_steps \<rparr>,
      \<lparr> job_id = ''MachineLearning'', needs = [], fail_fast = False,
        strategy = machine_learning_matrix, steps = machine_learning_steps \<rparr>,
      \<lparr> job_id = ''Tutorials'', needs = [], fail_fast = False,
        strategy = tutorials_matrix, steps = tutorials_steps \<rparr>,
      \<lparr> job_id = ''Deprecation_Messages_and_Coverage'',
        needs = [''Checks'', ''MachineLearning'', ''Tutorials''], fail_fast = True,
        strategy = coverage_matrix, steps = coverage_steps \<rparr>]"

section \<open>Triggers\<close>

text \<open>
  The events that can reach a workflow: a push to a branch or a tag, a pull request
  (with its base branch), the clock reaching a minute, or any other event, by name.
\<close>

datatype gitref = Branch string | Tag string

record clock =
  minute :: nat
  hour :: nat
  day_of_month :: nat
  month :: nat
  day_of_week :: nat

datatype event =
    PushEvent gitref
  | PullRequestEvent string
  | ClockEvent clock
  | OtherEvent string

text \<open>
  Branch patterns: \<^verbatim>\<open>*\<close> matches any run of characters without \<^verbatim>\<open>/\<close>,
  \<^verbatim>\<open>**\<close> any run of characters.
\<close>

datatype tok = PChar char | Star | StarStar

fun tokens :: "string \<Rightarrow> tok list" where
  "tokens (a # b # cs) =
     (if a = CHR ''*'' \<and> b = CHR ''*'' then StarStar # tokens cs
      else if a = CHR ''*'' then Star # tokens (b # cs)
      else PChar a # tokens (b # cs))"
| "tokens [a] = [if a = CHR ''*'' then Star else PChar a]"
| "tokens [] = []"

fun gmatch :: "tok list \<Rightarrow> string \<Rightarrow> bool" where
  "gmatch [] s = (s = [])"
| "gmatch (PChar c # p) [] = False"
| "gmatch (PChar c # p) (x # s) = (x = c \<and> gmatch p s)"
| "gmatch (Star # p) [] = gmatch p []"
| "gmatch (Star # p) (x # s) = (gmatch p (x # s) \<or> (x \<noteq> CHR ''/'' \<and> gmatch (Star # p) s))"
| "gmatch (StarStar # p) [] = gmatch p []"
| "gmatch (StarStar # p) (x # s) = (gmatch p (x # s) \<or> gmatch (StarStar # p) s)"

definition glob :: "string \<Rightarrow> string \<Rightarrow> bool" where
  "glob pat s = gmatch (tokens pat) s"

text \<open>
  A cron line has five fields: minute, hour, day of month, month, day of week. The
  fields read here are \<^verbatim>\<open>*\<close> and a number; a line with any other field is not a
  schedule. When both days are restricted, either may match.
\<close>

datatype cron_field = Any | At nat

fun words_from :: "string \<Rightarrow> string \<Rightarrow> string list" where
  "words_from cur [] = (if cur = [] then [] else [cur])"
| "words_from cur (c # cs) =
     (if c = CHR '' '' then (if cur = [] then words_from [] cs else cur # words_from [] cs)
      else words_from (cur @ [c]) cs)"

definition parse_field :: "string \<Rightarrow> cron_field option" where
  "parse_field s = (if s = ''*'' then Some Any else map_option At (parse_nat s))"

fun field_match :: "cron_field \<Rightarrow> nat \<Rightarrow> bool" where
  "field_match Any n = True"
| "field_match (At k) n = (n = k)"

definition cron_fires :: "string \<Rightarrow> clock \<Rightarrow> bool" where
  "cron_fires line t =
     (case map parse_field (words_from [] line) of
        [Some f1, Some f2, Some f3, Some f4, Some f5] \<Rightarrow>
          field_match f1 (minute t) \<and> field_match f2 (hour t) \<and> field_match f4 (month t) \<and>
          (if f3 \<noteq> Any \<and> f5 \<noteq> Any
           then field_match f3 (day_of_month t) \<or> field_match f5 (day_of_week t)
           else field_match f3 (day_of_month t) \<and> field_match f5 (day_of_week t))
      | _ \<Rightarrow> False)"

text \<open>
  The \<^verbatim>\<open>on\<close> key: for \<^verbatim>\<open>push\<close> and \<^verbatim>\<open>pull_request\<close> the \<^verbatim>\<open>branches\<close> filter
  (\<open>None\<close> when the event is not listed), and the cron lines of \<^verbatim>\<open>schedule\<close>. A push
  of a tag does not pass a \<^verbatim>\<open>branches\<close> filter.
\<close>

record triggers =
  on_push :: "string list option"
  on_pull_request :: "string list option"
  on_schedule :: "string list"

definition workflow_on :: triggers where
  "workflow_on =
     \<lparr> on_push = Some [''main'', ''stable/**''],
       on_pull_request = Some [''main'', ''stable/**''],
       on_schedule = [''0 1 * * *''] \<rparr>"

fun triggered :: "triggers \<Rightarrow> event \<Rightarrow> bool" where
  "triggered t (PushEvent (Branch b)) =
     (case on_push t of None \<Rightarrow> False | Some pats \<Rightarrow> list_ex (\<lambda>p. glob p b) pats)"
| "triggered t (PushEvent (Tag g)) = False"
| "triggered t (PullRequestEvent b) =
     (case on_pull_request t of None \<Rightarrow> False | Some pats \<Rightarrow> list_ex (\<lambda>p. glob p b) pats)"
| "triggered t (ClockEvent c) = list_ex (\<lambda>line. cron_fires line c) (on_schedule t)"
| "triggered t (OtherEvent n) = False"

section \<open>Concurrency\<close>

record concurrency =
  group :: "part list"
  cancel_in_progress :: bool

definition workflow_concurrency :: concurrency where
  "workflow_concurrency =
     \<lparr> group = [Sub (GithubVal ''repository''), Text ''-'', Sub (GithubVal ''ref''), Text ''-'',
                Sub (GithubVal ''head_ref''), Text ''-'', Sub (GithubVal ''workflow'')],
       cancel_in_progress = True \<rparr>"

definition workflow_context :: "(string \<Rightarrow> scalar) \<Rightarrow> contexts" where
  "workflow_context g = \<lparr> ctx_matrix = [], ctx_github = g, ctx_status = StatusSuccess \<rparr>"

definition group_of :: "concurrency \<Rightarrow> (string \<Rightarrow> scalar) \<Rightarrow> string" where
  "group_of c g = render (workflow_context g) (group c)"

text \<open>
  The runs the service knows, each with its group. When a run is queued, a pending
  run of its group is cancelled; a run in progress in its group is cancelled when
  \<^verbatim>\<open>cancel-in-progress\<close> is true, and otherwise the new run waits. Group names are
  compared without regard to case.
\<close>

datatype run_status = Pending | InProgress | Completed | CancelledRun

record run =
  run_group :: string
  run_status :: run_status

definition same_group :: "string \<Rightarrow> run \<Rightarrow> bool" where
  "same_group g r = (lower (run_group r) = lower g)"

definition start_run :: "concurrency \<Rightarrow> (string \<Rightarrow> scalar) \<Rightarrow> run list \<Rightarrow> run list" where
  "start_run c g runs =
     (let grp = group_of c g;
          busy = list_ex (\<lambda>r. same_group grp r \<and> run_status r = InProgress) runs
      in map (\<lambda>r. if same_group grp r \<and>
                       (run_status r = Pending \<or> (run_status r = InProgress \<and> cancel_in_progress c))
                    then r\<lparr>run_status := CancelledRun\<rparr> else r) runs
         @ [\<lparr> run_group = grp,
              run_status = (if busy \<and> \<not> cancel_in_progress c then Pending else InProgress) \<rparr>])"

section \<open>Scheduling the jobs of a run\<close>

text \<open>
  A job with a matrix runs once for each combination. An instance of a job starts when
  it is waiting and every instance of every job it needs has finished with success. An
  instance that is waiting or running can be dropped: skipped because a needed job did
  not succeed, or cancelled.
\<close>

type_synonym inst = "string \<times> nat"

datatype phase = Waiting | Running | Finished bool | NotRun

datatype action = Start inst | Finish inst bool | Drop inst

definition instances :: "job \<Rightarrow> inst list" where
  "instances j = map (\<lambda>k. (job_id j, k)) [0..<length (expand (strategy j))]"

definition instances_named :: "job list \<Rightarrow> string \<Rightarrow> inst list" where
  "instances_named js n = concat (map instances (filter (\<lambda>j. job_id j = n) js))"

definition needed :: "job list \<Rightarrow> string \<Rightarrow> inst list" where
  "needed js n =
     concat (map (\<lambda>j. concat (map (instances_named js) (needs j)))
                 (filter (\<lambda>j. job_id j = n) js))"

fun apply_action :: "job list \<Rightarrow> (inst \<Rightarrow> phase) \<Rightarrow> action \<Rightarrow> (inst \<Rightarrow> phase) option" where
  "apply_action js \<sigma> (Start i) =
     (if \<sigma> i = Waiting \<and> i \<in> set (instances_named js (fst i)) \<and>
         list_all (\<lambda>d. \<sigma> d = Finished True) (needed js (fst i))
      then Some (\<sigma>(i := Running)) else None)"
| "apply_action js \<sigma> (Finish i ok) =
     (if \<sigma> i = Running then Some (\<sigma>(i := Finished ok)) else None)"
| "apply_action js \<sigma> (Drop i) =
     (if \<sigma> i = Waiting \<or> \<sigma> i = Running then Some (\<sigma>(i := NotRun)) else None)"

fun run_actions :: "job list \<Rightarrow> (inst \<Rightarrow> phase) \<Rightarrow> action list \<Rightarrow> (inst \<Rightarrow> phase) option" where
  "run_actions js \<sigma> [] = Some \<sigma>"
| "run_actions js \<sigma> (a # as) =
     (case apply_action js \<sigma> a of None \<Rightarrow> None | Some \<sigma>' \<Rightarrow> run_actions js \<sigma>' as)"

definition all_waiting :: "inst \<Rightarrow> phase" where
  "all_waiting = (\<lambda>i. Waiting)"

fun started :: "phase \<Rightarrow> bool" where
  "started Running = True"
| "started (Finished ok) = True"
| "started _ = False"

text \<open>
  The last job of the workflow, and a schedule in which every instance it needs starts
  and finishes with success before it starts.
\<close>

definition coverage_job :: inst where
  "coverage_job = (''Deprecation_Messages_and_Coverage'', 0)"

definition full_schedule :: "action list" where
  "full_schedule =
     concat (map (\<lambda>i. [Start i, Finish i True])
                 (needed workflow_jobs ''Deprecation_Messages_and_Coverage''))
     @ [Start coverage_job]"

section \<open>Artifacts passed between jobs\<close>

text \<open>The \<^verbatim>\<open>name\<close> and \<^verbatim>\<open>path\<close> inputs of the upload and of the download steps of a job.\<close>

definition upload_parts :: "step list \<Rightarrow> (part list \<times> string) list" where
  "upload_parts ss = concat (map (\<lambda>s. case body s of Upload n p \<Rightarrow> [(n, p)] | _ \<Rightarrow> []) ss)"

definition download_parts :: "step list \<Rightarrow> (part list \<times> string) list" where
  "download_parts ss = concat (map (\<lambda>s. case body s of Download n p \<Rightarrow> [(n, p)] | _ \<Rightarrow> []) ss)"

definition job_context :: "combo \<Rightarrow> (string \<Rightarrow> scalar) \<Rightarrow> contexts" where
  "job_context c g = \<lparr> ctx_matrix = c, ctx_github = g, ctx_status = StatusSuccess \<rparr>"

text \<open>
  The artifact names under which the combination \<open>c\<close> of MachineLearning uploads, and the
  artifact names that the job Deprecation\_Messages\_and\_Coverage asks for, in the order
  of its steps.
\<close>

definition uploads_of :: "(string \<Rightarrow> scalar) \<Rightarrow> combo \<Rightarrow> string list" where
  "uploads_of g c = map (\<lambda>(n, p). render (job_context c g) n) (upload_parts machine_learning_steps)"

definition requested :: "(string \<Rightarrow> scalar) \<Rightarrow> string list" where
  "requested g =
     map (\<lambda>(n, p). render (job_context [(''python-version'', Num 390)] g) n)
         (download_parts coverage_steps)"

text \<open>The directory into which Deprecation\_Messages\_and\_Coverage downloads the artifact of a name.\<close>

definition download_dir :: "(string \<Rightarrow> scalar) \<Rightarrow> string \<Rightarrow> string option" where
  "download_dir g =
     map_of (map (\<lambda>(n, p). (render (job_context [(''python-version'', Num 390)] g) n, p))
                 (download_parts coverage_steps))"

text \<open>
  A command is quiet when its words name no file that it leaves behind, and a step is
  quiet when it is not an upload and all the commands of its script are quiet.
\<close>

fun quiet_cmd :: "cmd \<Rightarrow> bool" where
  "quiet_cmd (Ext ws) = (outputs [] ws = [])"
| "quiet_cmd (Opaque n) = True"
| "quiet_cmd TrueCmd = True"
| "quiet_cmd (OrList a b) = (quiet_cmd a \<and> quiet_cmd b)"

definition quiet :: "step \<Rightarrow> bool" where
  "quiet s = (case body s of Run sc \<Rightarrow> list_all quiet_cmd sc | Upload n p \<Rightarrow> False | _ \<Rightarrow> True)"

text \<open>The two combinations of MachineLearning used below, and the coverage condition in a run.\<close>

definition ubuntu_39 :: combo where
  "ubuntu_39 = [(''os'', Str ''ubuntu-latest''), (''python-version'', Num 390)]"

definition macos_313 :: combo where
  "macos_313 = [(''os'', Str ''macos-latest''), (''python-version'', Num 313)]"

definition produces_coverage :: "combo \<Rightarrow> (string \<Rightarrow> scalar) \<Rightarrow> bool" where
  "produces_coverage c g = truthy (eval (job_context c g) coverage_condition)"

section \<open>Some runs\<close>

text \<open>A push to main, on ubuntu-latest with Python 3.9, in which nothing fails.\<close>

definition push_to_main :: "string \<Rightarrow> scalar" where
  "push_to_main k =
     (if k = ''ref'' then Str ''refs/heads/main''
      else if k = ''event_name'' then Str ''push''
      else Str [])"

definition all_succeed :: run_env where
  "all_succeed =
     \<lparr> env_matrix = [(''os'', Str ''ubuntu-latest''), (''python-version'', Num 390)],
       env_github = push_to_main, cancelled_from = None,
       exit_code = (\<lambda>i j c. 0), action_ok = (\<lambda>i. True) \<rparr>"

text \<open>The same run of Checks, but \<^verbatim>\<open>pip check\<close> (step 6) exits with status 1.\<close>

definition pip_check_fails :: run_env where
  "pip_check_fails = all_succeed\<lparr>exit_code := (\<lambda>i j c. if i = 6 then 1 else 0)\<rparr>"

text \<open>
  The same run of Tutorials, but the run is cancelled when step 7 has ended and step 8
  has not begun.
\<close>

definition cancelled_after_build :: run_env where
  "cancelled_after_build = all_succeed\<lparr>cancelled_from := Some 8\<rparr>"

text \<open>The same run of Tutorials, but the upload action of step 8 fails.\<close>

definition upload_fails :: run_env where
  "upload_fails = all_succeed\<lparr>action_ok := (\<lambda>i. i \<noteq> 8)\<rparr>"

text \<open>The same run of Deprecation\_Messages\_and\_Coverage, but every \<^verbatim>\<open>sort\<close> exits with status 2.\<close>

definition sort_fails :: run_env where
  "sort_fails =
     all_succeed\<lparr>exit_code := (\<lambda>i j c. case c of Ext ws \<Rightarrow> if take 1 ws = [''sort''] then 2 else 0
                                               | _ \<Rightarrow> 0)\<rparr>"

text \<open>The run in which nothing fails, on macos-latest with Python 3.13.\<close>

definition all_succeed_macos :: run_env where
  "all_succeed_macos = all_succeed\<lparr>env_matrix := macos_313\<rparr>"

section \<open>The notebook 07\_pegasos\_qsvc\<close>

text \<open>
  The code cells of the tutorial are run from top to bottom. The model follows the
  values by their shape only: an array is the list of its dimensions. \<open>Opq\<close> is an
  expression of the source whose value is not followed and which calls nothing on the
  classifier (a float, a string, \<^verbatim>\<open>np.pi + margin\<close>, a subscript such as
  \<^verbatim>\<open>train_features[:, 0][train_labels == 0]\<close>). \<open>Kw\<close> is a keyword argument.
\<close>

datatype pexp =
    Var string
  | IntLit nat
  | Opq
  | Kw string pexp
  | Call string "pexp list"
  | Method pexp string "pexp list"
  | TupleE "pexp list"
  | Attr pexp string

datatype stmt =
    Import string
  | Assign "string list" pexp
  | SetAttr string string pexp
  | Expr pexp
  | Magic string

datatype pyval = Arr "nat list" | IntV nat | Obj string | Tup "pyval list" | KwV string pyval | Other

datatype py_error = NameError string | ValueError

text \<open>
  The state of the kernel: the variables, and the calls made so far on an object of the
  class \<^verbatim>\<open>PegasosQSVC\<close>, each with the method and the arguments.
\<close>

record nb_state =
  vars :: "(string \<times> pyval) list"
  calls :: "(string \<times> pyval list) list"

fun kwarg :: "string \<Rightarrow> pyval list \<Rightarrow> pyval option" where
  "kwarg k [] = None"
| "kwarg k (KwV k' v # vs) = (if k' = k then Some v else kwarg k vs)"
| "kwarg k (_ # vs) = kwarg k vs"

text \<open>
  The library functions at the level of shapes. \<open>n\<close> is the length of the array that
  \<^verbatim>\<open>np.arange(-margin, np.pi + margin, grid_step)\<close> returns, which floating-point
  arithmetic decides.
\<close>

definition call_fn :: "nat \<Rightarrow> string \<Rightarrow> pyval list \<Rightarrow> pyval" where
  "call_fn n f vs =
     (if f = ''make_blobs'' then
        (case (kwarg ''n_samples'' vs, kwarg ''n_features'' vs) of
           (Some (IntV a), Some (IntV b)) \<Rightarrow> Tup [Arr [a, b], Arr [a]]
         | _ \<Rightarrow> Other)
      else if f = ''train_test_split'' then
        (case (vs, kwarg ''train_size'' vs) of
           (Arr [a, b] # Arr [c] # rest, Some (IntV t)) \<Rightarrow>
             Tup [Arr [t, b], Arr [a - t, b], Arr [t], Arr [c - t]]
         | _ \<Rightarrow> Other)
      else if f = ''np.arange'' then Arr [n]
      else if f = ''np.meshgrid'' then
        (case vs of [Arr [a], Arr [b]] \<Rightarrow> Tup [Arr [b, a], Arr [b, a]] | _ \<Rightarrow> Other)
      else if f = ''np.column_stack'' then
        (case vs of [Tup (Arr [a] # cols)] \<Rightarrow> Arr [a, Suc (length cols)] | _ \<Rightarrow> Other)
      else if f = ''MinMaxScaler'' \<or> f = ''PegasosQSVC'' then Obj f
      else Other)"

definition call_method :: "pyval \<Rightarrow> string \<Rightarrow> pyval list \<Rightarrow> pyval" where
  "call_method v m vs =
     (case v of
        Obj c \<Rightarrow>
          if c = ''MinMaxScaler'' \<and> m = ''fit_transform'' then (case vs of [x] \<Rightarrow> x | _ \<Rightarrow> Other)
          else if c = ''PegasosQSVC'' \<and> m = ''fit'' then v
          else if c = ''PegasosQSVC'' \<and> m = ''predict'' then
            (case vs of [Arr (a # sh)] \<Rightarrow> Arr [a] | _ \<Rightarrow> Other)
          else Other
      | Arr sh \<Rightarrow> if m = ''ravel'' then Arr [prod_list sh] else Other
      | _ \<Rightarrow> Other)"

text \<open>
  An expression is evaluated as Python does: the object, then the arguments from left
  to right, then the call. A variable that is not bound raises \<^verbatim>\<open>NameError\<close>.
\<close>

fun eval_p :: "nat \<Rightarrow> nb_state \<Rightarrow> pexp \<Rightarrow> py_error + pyval \<times> nb_state"
  and eval_args :: "nat \<Rightarrow> nb_state \<Rightarrow> pexp list \<Rightarrow> py_error + pyval list \<times> nb_state" where
  "eval_p n st (Var x) =
     (case map_of (vars st) x of None \<Rightarrow> Inl (NameError x) | Some v \<Rightarrow> Inr (v, st))"
| "eval_p n st (IntLit k) = Inr (IntV k, st)"
| "eval_p n st Opq = Inr (Other, st)"
| "eval_p n st (Kw k e) =
     (case eval_p n st e of Inl err \<Rightarrow> Inl err | Inr (v, st') \<Rightarrow> Inr (KwV k v, st'))"
| "eval_p n st (Call f args) =
     (case eval_args n st args of
        Inl err \<Rightarrow> Inl err
      | Inr (vs, st') \<Rightarrow> Inr (call_fn n f vs, st'))"
| "eval_p n st (Method e m args) =
     (case eval_p n st e of
        Inl err \<Rightarrow> Inl err
      | Inr (v, st1) \<Rightarrow>
          (case eval_args n st1 args of
             Inl err \<Rightarrow> Inl err
           | Inr (vs, st2) \<Rightarrow>
               Inr (call_method v m vs,
                    if v = Obj ''PegasosQSVC'' then st2\<lparr>calls := calls st2 @ [(m, vs)]\<rparr>
                    else st2)))"
| "eval_p n st (TupleE es) =
     (case eval_args n st es of Inl err \<Rightarrow> Inl err | Inr (vs, st') \<Rightarrow> Inr (Tup vs, st'))"
| "eval_p n st (Attr e a) =
     (case eval_p n st e of Inl err \<Rightarrow> Inl err | Inr (v, st') \<Rightarrow> Inr (Other, st'))"
| "eval_args n st [] = Inr ([], st)"
| "eval_args n st (e # es) =
     (case eval_p n st e of
        Inl err \<Rightarrow> Inl err
      | Inr (v, st1) \<Rightarrow>
          (case eval_args n st1 es of
             Inl err \<Rightarrow> Inl err
           | Inr (vs, st2) \<Rightarrow> Inr (v # vs, st2)))"

definition bind_var :: "string \<Rightarrow> pyval \<Rightarrow> nb_state \<Rightarrow> nb_state" where
  "bind_var x v st = st\<lparr>vars := (x, v) # vars st\<rparr>"

text \<open>
  An assignment to several names unpacks a tuple of that many values; anything else
  raises \<^verbatim>\<open>ValueError\<close>. The names that an import binds are the library functions
  above, which \<open>call_fn\<close> knows by name.
\<close>

fun exec_stmt :: "nat \<Rightarrow> nb_state \<Rightarrow> stmt \<Rightarrow> py_error + nb_state" where
  "exec_stmt n st (Import m) = Inr st"
| "exec_stmt n st (Magic m) = Inr st"
| "exec_stmt n st (Expr e) =
     (case eval_p n st e of Inl err \<Rightarrow> Inl err | Inr (v, st') \<Rightarrow> Inr st')"
| "exec_stmt n st (SetAttr x a e) =
     (case eval_p n st e of Inl err \<Rightarrow> Inl err | Inr (v, st') \<Rightarrow> Inr st')"
| "exec_stmt n st (Assign xs e) =
     (case eval_p n st e of
        Inl err \<Rightarrow> Inl err
      | Inr (v, st') \<Rightarrow>
          (case xs of
             [x] \<Rightarrow> Inr (bind_var x v st')
           | _ \<Rightarrow>
               (case v of
                  Tup vs \<Rightarrow>
                    if length vs = length xs
                    then Inr (fold (\<lambda>(x, w). bind_var x w) (zip xs vs) st')
                    else Inl ValueError
                | _ \<Rightarrow> Inl ValueError)))"

fun exec_stmts :: "nat \<Rightarrow> nb_state \<Rightarrow> stmt list \<Rightarrow> py_error + nb_state" where
  "exec_stmts n st [] = Inr st"
| "exec_stmts n st (s # ss) =
     (case exec_stmt n st s of Inl err \<Rightarrow> Inl err | Inr st' \<Rightarrow> exec_stmts n st' ss)"

subsection \<open>The code cells\<close>

definition cell_data :: "stmt list" where
  "cell_data =
     [Import ''sklearn.datasets'',
      Assign [''features'', ''labels'']
        (Call ''make_blobs'' [Kw ''n_samples'' (IntLit 20), Kw ''n_features'' (IntLit 2),
                              Kw ''centers'' (IntLit 2), Kw ''random_state'' (IntLit 3),
                              Kw ''shuffle'' Opq])]"

definition cell_split :: "stmt list" where
  "cell_split =
     [Import ''numpy'',
      Import ''sklearn.model_selection'',
      Import ''sklearn.preprocessing'',
      Assign [''features'']
        (Method (Call ''MinMaxScaler'' [Kw ''feature_range'' Opq]) ''fit_transform''
                [Var ''features'']),
      Assign [''train_features'', ''test_features'', ''train_labels'', ''test_labels'']
        (Call ''train_test_split'' [Var ''features'', Var ''labels'',
                                    Kw ''train_size'' (IntLit 15), Kw ''shuffle'' Opq])]"

definition cell_parameters :: "stmt list" where
  "cell_parameters =
     [Assign [''num_qubits''] (IntLit 2),
      Assign [''tau''] (IntLit 100),
      Assign [''C''] (IntLit 1000)]"

definition cell_kernel :: "stmt list" where
  "cell_kernel =
     [Import ''qiskit.circuit.library'',
      Import ''qiskit_machine_learning.utils'',
      Import ''qiskit_machine_learning.kernels'',
      Import ''qiskit_machine_learning.state_fidelities'',
      Import ''qiskit.primitives'',
      Assign [''sampler''] (Call ''Sampler'' []),
      Assign [''fidelity''] (Call ''ComputeUncompute'' [Kw ''sampler'' (Var ''sampler'')]),
      SetAttr ''algorithm_globals'' ''random_seed'' (IntLit 12345),
      Assign [''feature_map'']
        (Call ''ZFeatureMap'' [Kw ''feature_dimension'' (Var ''num_qubits''), Kw ''reps'' (IntLit 1)]),
      Assign [''qkernel'']
        (Call ''FidelityQuantumKernel'' [Kw ''fidelity'' (Var ''fidelity''),
                                         Kw ''feature_map'' (Var ''feature_map'')])]"

definition cell_train :: "stmt list" where
  "cell_train =
     [Import ''qiskit_machine_learning.algorithms'',
      Assign [''pegasos_qsvc'']
        (Call ''PegasosQSVC'' [Kw ''quantum_kernel'' (Var ''qkernel''), Kw ''C'' (Var ''C''),
                               Kw ''num_steps'' (Var ''tau'')]),
      Expr (Method (Var ''pegasos_qsvc'') ''fit'' [Var ''train_features'', Var ''train_labels'']),
      Assign [''pegasos_score'']
        (Method (Var ''pegasos_qsvc'') ''score'' [Var ''test_features'', Var ''test_labels'']),
      Expr (Call ''print'' [Opq])]"

definition cell_grid :: "stmt list" where
  "cell_grid =
     [Assign [''grid_step''] Opq,
      Assign [''margin''] Opq,
      Assign [''grid_x'', ''grid_y'']
        (Call ''np.meshgrid'' [Call ''np.arange'' [Opq, Opq, Var ''grid_step''],
                               Call ''np.arange'' [Opq, Opq, Var ''grid_step'']])]"

definition cell_predict :: "stmt list" where
  "cell_predict =
     [Assign [''meshgrid_features'']
        (Call ''np.column_stack''
           [TupleE [Method (Var ''grid_x'') ''ravel'' [], Method (Var ''grid_y'') ''ravel'' []]]),
      Assign [''meshgrid_colors'']
        (Method (Var ''pegasos_qsvc'') ''predict'' [Var ''meshgrid_features''])]"

definition cell_plot :: "stmt list" where
  "cell_plot =
     [Import ''matplotlib.pyplot'',
      Expr (Call ''plt.figure'' [Kw ''figsize'' Opq]),
      Assign [''meshgrid_colors'']
        (Method (Var ''meshgrid_colors'') ''reshape'' [Attr (Var ''grid_x'') ''shape'']),
      Expr (Call ''plt.pcolormesh'' [Var ''grid_x'', Var ''grid_y'', Var ''meshgrid_colors'',
                                     Kw ''cmap'' Opq, Kw ''shading'' Opq]),
      Expr (Call ''plt.scatter'' [Opq, Opq, Kw ''marker'' Opq, Kw ''facecolors'' Opq,
                                  Kw ''edgecolors'' Opq, Kw ''label'' Opq]),
      Expr (Call ''plt.scatter'' [Opq, Opq, Kw ''marker'' Opq, Kw ''facecolors'' Opq,
                                  Kw ''edgecolors'' Opq, Kw ''label'' Opq]),
      Expr (Call ''plt.scatter'' [Opq, Opq, Kw ''marker'' Opq, Kw ''facecolors'' Opq,
                                  Kw ''edgecolors'' Opq, Kw ''label'' Opq]),
      Expr (Call ''plt.scatter'' [Opq, Opq, Kw ''marker'' Opq, Kw ''facecolors'' Opq,
                                  Kw ''edgecolors'' Opq, Kw ''label'' Opq]),
      Expr (Call ''plt.legend'' [Kw ''bbox_to_anchor'' Opq, Kw ''loc'' Opq,
                                 Kw ''borderaxespad'' Opq]),
      Expr (Call ''plt.title'' [Opq]),
      Expr (Call ''plt.show'' [])]"

definition cell_versions :: "stmt list" where
  "cell_versions =
     [Import ''tutorial_magics'', Magic ''qiskit_version_table'', Magic ''qiskit_copyright'']"

definition notebook :: "stmt list list" where
  "notebook =
     [cell_data, cell_split, cell_parameters, cell_kernel, cell_train, cell_grid,
      cell_predict, cell_plot, cell_versions]"

definition run_notebook :: "nat \<Rightarrow> py_error + nb_state" where
  "run_notebook n = exec_stmts n \<lparr> vars = [], calls = [] \<rparr> (concat notebook)"

text \<open>The calls of the first \<open>k\<close> cells, and the position of the first call of a method.\<close>

definition calls_after :: "nat \<Rightarrow> nat \<Rightarrow> (string \<times> pyval list) list" where
  "calls_after n k =
     (case exec_stmts n \<lparr> vars = [], calls = [] \<rparr> (concat (take k notebook)) of
        Inl err \<Rightarrow> []
      | Inr st \<Rightarrow> calls st)"

section \<open>Properties of the matrices\<close>

lemma show_num_versions:
  "show_num 390 = ''3.9''" "show_num 311 = ''3.11''" "show_num 312 = ''3.12''"
  "show_num 313 = ''3.13''" "show_num 310 = ''3.1''"
  by (simp_all add: show_num_def show_nat.simps digit_def)

lemma expand_machine_learning:
  "expand machine_learning_matrix =
     [[(''os'', Str ''ubuntu-latest''), (''python-version'', Num 390)],
      [(''os'', Str ''ubuntu-latest''), (''python-version'', Str ''3.10'')],
      [(''os'', Str ''ubuntu-latest''), (''python-version'', Num 311)],
      [(''os'', Str ''ubuntu-latest''), (''python-version'', Num 312)],
      [(''os'', Str ''ubuntu-latest''), (''python-version'', Num 313)],
      [(''os'', Str ''macos-latest''), (''python-version'', Num 390)],
      [(''os'', Str ''macos-latest''), (''python-version'', Num 313)],
      [(''os'', Str ''windows-latest''), (''python-version'', Num 390)],
      [(''os'', Str ''windows-latest''), (''python-version'', Num 313)]]"
  by (simp add: expand_def machine_learning_matrix_def fits_def)

lemma expand_tutorials:
  "expand tutorials_matrix =
     [[(''os'', Str ''ubuntu-latest''), (''python-version'', Num 390)],
      [(''os'', Str ''ubuntu-latest''), (''python-version'', Num 313)]]"
  by (simp add: expand_def tutorials_matrix_def)

text \<open>
  C6: the matrices of the test jobs are the product of the \<^verbatim>\<open>os\<close> axis and the
  \<^verbatim>\<open>python-version\<close> axis, followed by the included points. MachineLearning runs
  \<open>[ubuntu-latest] \<times> [3.9, 3.10, 3.11, 3.12, 3.13]\<close> and the four points macos-latest
  and windows-latest at 3.9 and 3.13; Tutorials has no included point; the \<^verbatim>\<open>os\<close> axis
  of both holds ubuntu-latest only.
\<close>

theorem matrices_product_plus_inclusions:
  "expand machine_learning_matrix =
     product_axes (axes machine_learning_matrix) @ inclusions machine_learning_matrix \<and>
   map point (product_axes (axes machine_learning_matrix)) =
     List.product [''ubuntu-latest''] [''3.9'', ''3.10'', ''3.11'', ''3.12'', ''3.13''] \<and>
   map point (inclusions machine_learning_matrix) =
     [(''macos-latest'', ''3.9''), (''macos-latest'', ''3.13''),
      (''windows-latest'', ''3.9''), (''windows-latest'', ''3.13'')] \<and>
   expand tutorials_matrix = product_axes (axes tutorials_matrix) \<and>
   map point (product_axes (axes tutorials_matrix)) =
     List.product [''ubuntu-latest''] [''3.9'', ''3.13''] \<and>
   inclusions tutorials_matrix = [] \<and>
   map_of (axes machine_learning_matrix) ''os'' = Some [Str ''ubuntu-latest''] \<and>
   map_of (axes tutorials_matrix) ''os'' = Some [Str ''ubuntu-latest'']"
  unfolding expand_machine_learning expand_tutorials
  by (simp add: machine_learning_matrix_def tutorials_matrix_def point_def show_num_versions)

section \<open>Properties of the artifact names\<close>

lemma requested_names:
  "requested g =
     [''ubuntu-latest-3.9'', ''ubuntu-latest-3.10'', ''ubuntu-latest-3.11'',
      ''ubuntu-latest-3.12'', ''ubuntu-latest-3.13'', ''macos-latest-3.9'',
      ''macos-latest-3.13'', ''windows-latest-3.9'', ''windows-latest-3.13'']"
  by (simp add: requested_def download_parts_def coverage_steps_def render_def)

lemma uploads_of_machine_learning:
  "map (uploads_of g) (expand machine_learning_matrix) = map (\<lambda>n. [n]) (requested g)"
  by (simp add: requested_names expand_machine_learning uploads_of_def upload_parts_def
      machine_learning_steps_def render_def job_context_def show_num_versions)

lemma uploads_of_point:
  "list_all (\<lambda>c. uploads_of g c = [fst (point c) @ ''-'' @ snd (point c)])
     (expand machine_learning_matrix)"
  by (simp add: expand_machine_learning uploads_of_def upload_parts_def point_def
      machine_learning_steps_def render_def job_context_def show_num_versions)

lemma distinct_requested: "distinct (requested g)"
  by (simp add: requested_names)

lemma unique_source:
  assumes "map f xs = map (\<lambda>n. [n]) ys" and "distinct ys" and "i < length ys"
  shows "\<exists>!x. x \<in> set xs \<and> f x = [ys ! i]"
proof -
  have d: "distinct (map f xs)"
    using assms(1,2) by (simp add: distinct_map inj_on_def)
  have "[ys ! i] \<in> set (map f xs)"
    using assms(1,3) by (metis (no_types, lifting) length_map nth_map nth_mem)
  then obtain x where x: "x \<in> set xs" "f x = [ys ! i]" by auto
  have "inj_on f (set xs)" using d by (simp add: distinct_map)
  then show ?thesis using x by (auto simp: inj_on_def)
qed

lemma unique_request:
  assumes "map f xs = map (\<lambda>n. [n]) ys" and "distinct ys" and "x \<in> set xs"
  shows "\<exists>!i. i < length ys \<and> f x = [ys ! i]"
proof -
  have "f x \<in> set (map (\<lambda>n. [n]) ys)"
    using assms(1,3) by (metis image_eqI list.set_map)
  then obtain y where y: "y \<in> set ys" "f x = [y]" by auto
  then obtain i where i: "i < length ys" "ys ! i = y" by (auto simp: in_set_conv_nth)
  show ?thesis
  proof (rule ex1I [of _ i])
    show "i < length ys \<and> f x = [ys ! i]" using i y by simp
  next
    fix k assume "k < length ys \<and> f x = [ys ! k]"
    then show "k = i" using i y assms(2) by (simp add: nth_eq_iff_index_eq)
  qed
qed

text \<open>
  C2: the job Deprecation\_Messages\_and\_Coverage has nine download steps. Every
  combination of MachineLearning uploads under the one name \<^verbatim>\<open><os>-<python-version>\<close>;
  the name of every download step is the upload name of exactly one combination, and
  the upload name of every combination is asked for by exactly one download step.
\<close>

theorem downloads_match_uploads:
  "length (requested g) = 9 \<and>
   (\<forall>c \<in> set (expand machine_learning_matrix).
      uploads_of g c = [fst (point c) @ ''-'' @ snd (point c)]) \<and>
   (\<forall>i < length (requested g).
      \<exists>!c. c \<in> set (expand machine_learning_matrix) \<and> uploads_of g c = [requested g ! i]) \<and>
   (\<forall>c \<in> set (expand machine_learning_matrix).
      \<exists>!i. i < length (requested g) \<and> uploads_of g c = [requested g ! i])"
proof (intro conjI allI ballI impI)
  show "length (requested g) = 9" by (simp add: requested_names)
next
  fix c assume "c \<in> set (expand machine_learning_matrix)"
  then show "uploads_of g c = [fst (point c) @ ''-'' @ snd (point c)]"
    using uploads_of_point [of g] by (simp add: list_all_iff)
next
  fix i assume "i < length (requested g)"
  then show "\<exists>!c. c \<in> set (expand machine_learning_matrix) \<and> uploads_of g c = [requested g ! i]"
    by (rule unique_source [OF uploads_of_machine_learning distinct_requested])
next
  fix c assume "c \<in> set (expand machine_learning_matrix)"
  then show "\<exists>!i. i < length (requested g) \<and> uploads_of g c = [requested g ! i]"
    by (rule unique_request [OF uploads_of_machine_learning distinct_requested])
qed

theorem downloads_match_uploads_witness:
  "uploads_of (\<lambda>k. Null) [(''os'', Str ''macos-latest''), (''python-version'', Num 313)] =
     [''macos-latest-3.13''] \<and>
   (\<exists>!c. c \<in> set (expand machine_learning_matrix) \<and>
      uploads_of (\<lambda>k. Null) c = [requested (\<lambda>k. Null) ! 6]) \<and>
   (\<exists>!i. i < length (requested (\<lambda>k. Null)) \<and>
      uploads_of (\<lambda>k. Null) [(''os'', Str ''macos-latest''), (''python-version'', Num 313)] =
        [requested (\<lambda>k. Null) ! i])"
proof -
  let ?g = "\<lambda>k::string. Null"
  let ?c = "[(''os'', Str ''macos-latest''), (''python-version'', Num 313)]"
  note T = downloads_match_uploads [of ?g]
  have m: "?c \<in> set (expand machine_learning_matrix)"
    by (simp add: expand_machine_learning)
  have l: "6 < length (requested ?g)" by (simp add: requested_names)
  have n: "fst (point ?c) @ ''-'' @ snd (point ?c) = ''macos-latest-3.13''"
    by (simp add: point_def show_num_versions)
  have "uploads_of ?g ?c = [fst (point ?c) @ ''-'' @ snd (point ?c)]"
    using T m by blast
  then have 1: "uploads_of ?g ?c = [''macos-latest-3.13'']"
    unfolding n .
  have 2: "\<exists>!c. c \<in> set (expand machine_learning_matrix) \<and> uploads_of ?g c = [requested ?g ! 6]"
    using T l by blast
  have 3: "\<exists>!i. i < length (requested ?g) \<and> uploads_of ?g ?c = [requested ?g ! i]"
    using T m by blast
  show ?thesis
    by (intro conjI) (fact 1, fact 2, fact 3)
qed

section \<open>Properties of the triggers\<close>

lemma gmatch_starstar: "gmatch [StarStar] s"
  by (induction s) simp_all

lemma gmatch_pchar: "gmatch (PChar c # p) s \<longleftrightarrow> (\<exists>t. s = c # t \<and> gmatch p t)"
  by (cases s) auto

lemma glob_main: "glob ''main'' b \<longleftrightarrow> b = ''main''"
  by (auto simp: glob_def gmatch_pchar)

lemma glob_stable: "glob ''stable/**'' b \<longleftrightarrow> (\<exists>r. b = ''stable/'' @ r)"
  by (auto simp: glob_def gmatch_pchar gmatch_starstar)

lemma cron_daily_at_one: "cron_fires ''0 1 * * *'' t \<longleftrightarrow> minute t = 0 \<and> hour t = 1"
  by (simp add: cron_fires_def parse_field_def parse_nat_def digit_val_def)

text \<open>
  C4: the workflow starts on exactly three kinds of event: a push to the branch main or
  to a branch that matches \<^verbatim>\<open>stable/**\<close> (its name starts with \<^verbatim>\<open>stable/\<close>), a pull
  request whose base is such a branch, and the clock at minute 0 of hour 1. On every day
  there is exactly one minute at which the schedule fires.
\<close>

theorem workflow_triggers:
  "(triggered workflow_on ev \<longleftrightarrow>
      (\<exists>b. ev = PushEvent (Branch b) \<and> (b = ''main'' \<or> (\<exists>r. b = ''stable/'' @ r))) \<or>
      (\<exists>b. ev = PullRequestEvent b \<and> (b = ''main'' \<or> (\<exists>r. b = ''stable/'' @ r))) \<or>
      (\<exists>t. ev = ClockEvent t \<and> minute t = 0 \<and> hour t = 1)) \<and>
   on_schedule workflow_on = [''0 1 * * *''] \<and>
   {(h, mi). h < 24 \<and> mi < 60 \<and>
       triggered workflow_on
         (ClockEvent \<lparr> minute = mi, hour = h, day_of_month = d, month = m, day_of_week = w \<rparr>)}
     = {(1, 0)}"
proof (intro conjI)
  show "triggered workflow_on ev \<longleftrightarrow>
      (\<exists>b. ev = PushEvent (Branch b) \<and> (b = ''main'' \<or> (\<exists>r. b = ''stable/'' @ r))) \<or>
      (\<exists>b. ev = PullRequestEvent b \<and> (b = ''main'' \<or> (\<exists>r. b = ''stable/'' @ r))) \<or>
      (\<exists>t. ev = ClockEvent t \<and> minute t = 0 \<and> hour t = 1)"
  proof (cases ev)
    case (PushEvent r)
    then show ?thesis
      by (cases r) (simp_all add: workflow_on_def glob_main glob_stable)
  next
    case (PullRequestEvent b)
    then show ?thesis by (simp add: workflow_on_def glob_main glob_stable)
  next
    case (ClockEvent t)
    then show ?thesis by (simp add: workflow_on_def cron_daily_at_one)
  next
    case (OtherEvent n)
    then show ?thesis by simp
  qed
next
  show "on_schedule workflow_on = [''0 1 * * *'']" by (simp add: workflow_on_def)
next
  show "{(h, mi). h < 24 \<and> mi < 60 \<and>
       triggered workflow_on
         (ClockEvent \<lparr> minute = mi, hour = h, day_of_month = d, month = m, day_of_week = w \<rparr>)}
     = {(1, 0)}"
    by (auto simp: workflow_on_def cron_daily_at_one)
qed

section \<open>Properties of the concurrency group\<close>

lemma group_of_workflow:
  "group_of workflow_concurrency g =
     to_string (g ''repository'') @ ''-'' @ to_string (g ''ref'') @ ''-'' @
     to_string (g ''head_ref'') @ ''-'' @ to_string (g ''workflow'')"
  by (simp add: group_of_def workflow_concurrency_def render_def workflow_context_def)

text \<open>
  C5: the group of a run is made of the repository, the ref, the head ref and the
  workflow name, and \<^verbatim>\<open>cancel-in-progress\<close> is true. A run that agrees with the new run
  on the four is in its group; when the new run starts, every run of its group that is
  in progress is cancelled, and the new run is in progress.
\<close>

theorem concurrency_cancels_in_progress:
  "group_of workflow_concurrency g =
     to_string (g ''repository'') @ ''-'' @ to_string (g ''ref'') @ ''-'' @
     to_string (g ''head_ref'') @ ''-'' @ to_string (g ''workflow'') \<and>
   cancel_in_progress workflow_concurrency \<and>
   (\<forall>g'. g' ''repository'' = g ''repository'' \<and> g' ''ref'' = g ''ref'' \<and>
         g' ''head_ref'' = g ''head_ref'' \<and> g' ''workflow'' = g ''workflow'' \<longrightarrow>
         group_of workflow_concurrency g' = group_of workflow_concurrency g) \<and>
   length (start_run workflow_concurrency g runs) = Suc (length runs) \<and>
   (\<forall>i < length runs.
      run_status (runs ! i) = InProgress \<and>
      same_group (group_of workflow_concurrency g) (runs ! i) \<longrightarrow>
      run_status (start_run workflow_concurrency g runs ! i) = CancelledRun) \<and>
   last (start_run workflow_concurrency g runs) =
     \<lparr> run_group = group_of workflow_concurrency g, run_status = InProgress \<rparr>"
proof (intro conjI allI impI)
  show "group_of workflow_concurrency g =
     to_string (g ''repository'') @ ''-'' @ to_string (g ''ref'') @ ''-'' @
     to_string (g ''head_ref'') @ ''-'' @ to_string (g ''workflow'')"
    by (rule group_of_workflow)
next
  show "cancel_in_progress workflow_concurrency" by (simp add: workflow_concurrency_def)
next
  fix g' :: "string \<Rightarrow> scalar"
  assume "g' ''repository'' = g ''repository'' \<and> g' ''ref'' = g ''ref'' \<and>
         g' ''head_ref'' = g ''head_ref'' \<and> g' ''workflow'' = g ''workflow''"
  then show "group_of workflow_concurrency g' = group_of workflow_concurrency g"
    by (simp add: group_of_workflow)
next
  show "length (start_run workflow_concurrency g runs) = Suc (length runs)"
    by (simp add: start_run_def Let_def)
next
  fix i
  assume "i < length runs"
    and "run_status (runs ! i) = InProgress \<and>
         same_group (group_of workflow_concurrency g) (runs ! i)"
  then show "run_status (start_run workflow_concurrency g runs ! i) = CancelledRun"
    by (simp add: start_run_def Let_def nth_append workflow_concurrency_def)
next
  show "last (start_run workflow_concurrency g runs) =
     \<lparr> run_group = group_of workflow_concurrency g, run_status = InProgress \<rparr>"
    by (simp add: start_run_def Let_def workflow_concurrency_def)
qed

theorem concurrency_cancels_in_progress_witness:
  "group_of workflow_concurrency
     (\<lambda>k. if k = ''repository'' then Str ''o/r'' else if k = ''ref'' then Str ''refs/heads/main''
          else if k = ''workflow'' then Str ''CI'' else Str [])
     = ''o/r-refs/heads/main--CI'' \<and>
   run_status
     (start_run workflow_concurrency
        (\<lambda>k. if k = ''repository'' then Str ''o/r'' else if k = ''ref'' then Str ''refs/heads/main''
             else if k = ''workflow'' then Str ''CI'' else Str [])
        [\<lparr> run_group = ''o/r-refs/heads/main--CI'', run_status = InProgress \<rparr>] ! 0)
     = CancelledRun"
proof -
  let ?g = "\<lambda>k. if k = ''repository'' then Str ''o/r'' else if k = ''ref'' then Str ''refs/heads/main''
          else if k = ''workflow'' then Str ''CI'' else Str []"
  let ?runs = "[\<lparr> run_group = ''o/r-refs/heads/main--CI'', run_status = InProgress \<rparr>]"
  note T = concurrency_cancels_in_progress [of ?g ?runs]
  have n: "group_of workflow_concurrency ?g = ''o/r-refs/heads/main--CI''"
    using T by simp
  have h: "(0::nat) < length ?runs" by simp
  have s: "run_status (?runs ! 0) = InProgress \<and>
           same_group (group_of workflow_concurrency ?g) (?runs ! 0)"
    unfolding n by (simp add: same_group_def)
  have "run_status (start_run workflow_concurrency ?g ?runs ! 0) = CancelledRun"
    using T h s by blast
  then show ?thesis using n by blast
qed

section \<open>Properties of the run of a job\<close>

lemma run_steps_append:
  "run_steps env i st (xs @ ys) = run_steps env (i + length xs) (run_steps env i st xs) ys"
  by (induction xs arbitrary: i st) simp_all

lemma log_run_body: "\<exists>x. x \<noteq> Skipped \<and> log (run_body env i st b) = log st @ [x]"
  by (cases b) (auto simp: run_body_def succeed_def fail_def Let_def split: prod.splits)

lemma log_run_step: "log (run_step env i st s) = log st @ [step_outcome env i st s]"
  using log_run_body [of env i st "body s"]
  by (auto simp: step_outcome_def run_step_def)

lemma step_outcome_skipped: "step_outcome env i st s = Skipped \<longleftrightarrow> \<not> should_run env i st s"
  using log_run_body [of env i st "body s"]
  by (auto simp: step_outcome_def run_step_def)

lemma log_run_steps: "\<exists>ys. length ys = length ss \<and> log (run_steps env i st ss) = log st @ ys"
proof (induction ss arbitrary: i st)
  case Nil
  then show ?case by simp
next
  case (Cons s ss)
  obtain ys where "length ys = length ss"
    and "log (run_steps env (Suc i) (run_step env i st s) ss) = log (run_step env i st s) @ ys"
    using Cons.IH by blast
  then show ?case
    by (intro exI [of _ "step_outcome env i st s # ys"]) (simp add: log_run_step)
qed

lemma log_state_before: "k \<le> length ss \<Longrightarrow> length (log (state_before env ss k)) = k"
  using log_run_steps [of "take k ss" env 0 init_state]
  by (auto simp: state_before_def init_state_def)

lemma state_before_Suc:
  assumes "k < length ss"
  shows "state_before env ss (Suc k) = run_step env k (state_before env ss k) (ss ! k)"
  using assms by (simp add: state_before_def take_Suc_conv_app_nth run_steps_append)

lemma run_job_split:
  assumes "k < length ss"
  shows "run_job env ss =
           run_steps env (Suc k) (run_step env k (state_before env ss k) (ss ! k)) (drop (Suc k) ss)"
proof -
  have "ss = take k ss @ ss ! k # drop (Suc k) ss"
    using assms by (simp add: id_take_nth_drop)
  then have "run_job env ss = run_steps env 0 init_state (take k ss @ ss ! k # drop (Suc k) ss)"
    by (simp add: run_job_def)
  then show ?thesis
    using assms by (simp add: run_steps_append state_before_def)
qed

lemma outcome_of_step:
  assumes "k < length ss"
  shows "outcome_of env ss k = step_outcome env k (state_before env ss k) (ss ! k)"
proof -
  let ?st = "run_step env k (state_before env ss k) (ss ! k)"
  obtain ys where "log (run_job env ss) = log ?st @ ys"
    using log_run_steps [of "drop (Suc k) ss" env "Suc k" ?st] run_job_split [OF assms, of env]
    by auto
  moreover have "length (log (state_before env ss k)) = k"
    using assms by (simp add: log_state_before)
  ultimately show ?thesis
    by (simp add: outcome_of_def log_run_step nth_append)
qed

lemma executes_iff:
  "executes env ss k \<longleftrightarrow> k < length ss \<and> should_run env k (state_before env ss k) (ss ! k)"
  by (auto simp: executes_def outcome_of_step step_outcome_skipped)

lemma should_run_not_cancelled:
  "condition s = Some not_cancelled \<Longrightarrow> should_run env i st s \<longleftrightarrow> \<not> is_cancelled env i"
  by (simp add: should_run_def effective_def not_cancelled_def context_at_def status_at_def)

lemma failed_run_step:
  "failed (run_step env i st s) \<longleftrightarrow> failed st \<or> step_outcome env i st s = Failed"
  by (cases "body s")
     (auto simp: step_outcome_def run_step_def run_body_def succeed_def fail_def Let_def
           split: prod.splits)

lemma eval_stable_build_condition:
  "eval (context_at env i st) stable_build_condition =
   eval (job_context (env_matrix env) (env_github env)) stable_build_condition"
  by (simp add: stable_build_condition_def context_at_def job_context_def)

lemma should_run_stable_build:
  assumes "condition s = Some stable_build_condition"
  shows "should_run env i st s \<longleftrightarrow>
           \<not> is_cancelled env i \<and> \<not> failed st \<and>
           truthy (eval (job_context (env_matrix env) (env_github env)) stable_build_condition)"
proof -
  have "effective (condition s) = And Success stable_build_condition"
    using assms by (simp add: effective_def stable_build_condition_def)
  then have "should_run env i st s \<longleftrightarrow>
               ctx_status (context_at env i st) = StatusSuccess \<and>
               truthy (eval (context_at env i st) stable_build_condition)"
    by (simp add: should_run_def)
  then show ?thesis
    unfolding eval_stable_build_condition
    by (auto simp: context_at_def status_at_def)
qed

section \<open>Properties of the Checks job\<close>

lemma length_checks_steps: "length checks_steps = 13"
  by (simp add: checks_steps_def)

lemma checks_conditions: "list_all (\<lambda>s. condition s = Some not_cancelled) (drop 6 checks_steps)"
  by (simp add: checks_steps_def)

text \<open>
  C3: in the job Checks, the seven steps after \<^verbatim>\<open>Install Dependencies\<close> all carry the
  condition \<^verbatim>\<open>!cancelled()\<close>, and each of them executes in every run that is not
  cancelled by the time the step is reached, whatever the earlier steps did.
\<close>

theorem checks_run_unless_cancelled:
  "label (checks_steps ! 5) = ''Install Dependencies'' \<and>
   map label (drop 6 checks_steps) =
     [''pip check'', ''Copyright Check'', ''make spell'', ''Style Check'', ''Run make html'',
      ''Run upload documentation'', ''make doctest''] \<and>
   (\<forall>s \<in> set (drop 6 checks_steps). condition s = Some not_cancelled) \<and>
   (\<forall>k. 6 \<le> k \<and> k < length checks_steps \<and> \<not> is_cancelled env k \<longrightarrow>
        executes env checks_steps k)"
proof (intro conjI allI impI)
  show "label (checks_steps ! 5) = ''Install Dependencies''"
    by (simp add: checks_steps_def)
next
  show "map label (drop 6 checks_steps) =
     [''pip check'', ''Copyright Check'', ''make spell'', ''Style Check'', ''Run make html'',
      ''Run upload documentation'', ''make doctest'']"
    by (simp add: checks_steps_def)
next
  show "\<forall>s \<in> set (drop 6 checks_steps). condition s = Some not_cancelled"
    using checks_conditions by (simp add: list_all_iff)
next
  fix k
  assume k: "6 \<le> k \<and> k < length checks_steps \<and> \<not> is_cancelled env k"
  then have "drop 6 checks_steps ! (k - 6) = checks_steps ! k"
    and "k - 6 < length (drop 6 checks_steps)"
    by (auto simp: length_checks_steps)
  then have "checks_steps ! k \<in> set (drop 6 checks_steps)"
    by (metis nth_mem)
  then have "condition (checks_steps ! k) = Some not_cancelled"
    using checks_conditions by (simp add: list_all_iff)
  then show "executes env checks_steps k"
    using k by (simp add: executes_iff should_run_not_cancelled)
qed

theorem checks_run_unless_cancelled_witness:
  "outcome_of pip_check_fails checks_steps 6 = Failed \<and>
   \<not> is_cancelled pip_check_fails 7 \<and>
   condition (checks_steps ! 7) = Some not_cancelled \<and>
   executes pip_check_fails checks_steps 7"
proof -
  note T = checks_run_unless_cancelled [of pip_check_fails]
  have f: "outcome_of pip_check_fails checks_steps 6 = Failed" by code_simp
  have c: "\<not> is_cancelled pip_check_fails 7"
    by (simp add: is_cancelled_def pip_check_fails_def all_succeed_def)
  have m: "checks_steps ! 7 \<in> set (drop 6 checks_steps)"
    by (simp add: checks_steps_def)
  have "(6::nat) \<le> 7 \<and> 7 < length checks_steps \<and> \<not> is_cancelled pip_check_fails 7"
    using c by (simp add: length_checks_steps)
  then have "executes pip_check_fails checks_steps 7" using T by blast
  moreover have "condition (checks_steps ! 7) = Some not_cancelled" using T m by blast
  ultimately show ?thesis using f c by blast
qed

section \<open>Properties of the Tutorials job\<close>

lemma tutorials_step_7:
  "tutorials_steps ! 7 =
     \<lparr> label = ''Run stable tutorials'', condition = Some stable_build_condition,
       body = body (tutorials_steps ! 7) \<rparr>"
  by (simp add: tutorials_steps_def)

lemma tutorials_step_8:
  "tutorials_steps ! 8 =
     \<lparr> label = ''Run upload stable tutorials'', condition = Some stable_upload_condition,
       body = Upload [Text ''tutorials-stable'', Sub (MatrixVal ''python-version'')]
                     ''docs/_build/html/artifacts/tutorials.tar.gz'' \<rparr>"
  by (simp add: tutorials_steps_def)

lemma length_tutorials_steps: "length tutorials_steps = 9"
  by (simp add: tutorials_steps_def)

lemma same_stable_condition: "stable_upload_condition = stable_build_condition"
  by (simp add: stable_upload_condition_def stable_build_condition_def)

lemma upload_iff_built:
  assumes "cancelled_from env \<noteq> Some 8"
  shows "executes env tutorials_steps 8 \<longleftrightarrow> outcome_of env tutorials_steps 7 = Succeeded"
proof -
  let ?s7 = "state_before env tutorials_steps 7"
  let ?s8 = "state_before env tutorials_steps 8"
  let ?o7 = "step_outcome env 7 ?s7 (tutorials_steps ! 7)"
  let ?ok = "truthy (eval (job_context (env_matrix env) (env_github env)) stable_build_condition)"
  have c7: "condition (tutorials_steps ! 7) = Some stable_build_condition"
    by (subst tutorials_step_7) simp
  have c8: "condition (tutorials_steps ! 8) = Some stable_build_condition"
    by (subst tutorials_step_8) (simp add: same_stable_condition)
  have o7: "outcome_of env tutorials_steps 7 = ?o7"
    by (simp add: outcome_of_step length_tutorials_steps)
  have s8: "?s8 = run_step env 7 ?s7 (tutorials_steps ! 7)"
    using state_before_Suc [of 7 tutorials_steps env] by (simp add: length_tutorials_steps)
  have f8: "failed ?s8 \<longleftrightarrow> failed ?s7 \<or> ?o7 = Failed"
    unfolding s8 by (rule failed_run_step)
  have r7: "should_run env 7 ?s7 (tutorials_steps ! 7) \<longleftrightarrow>
              \<not> is_cancelled env 7 \<and> \<not> failed ?s7 \<and> ?ok"
    by (rule should_run_stable_build [OF c7])
  have r8: "executes env tutorials_steps 8 \<longleftrightarrow> \<not> is_cancelled env 8 \<and> \<not> failed ?s8 \<and> ?ok"
    by (simp add: executes_iff length_tutorials_steps should_run_stable_build [OF c8])
  have k7: "?o7 = Skipped \<longleftrightarrow> \<not> should_run env 7 ?s7 (tutorials_steps ! 7)"
    by (rule step_outcome_skipped)
  have canc: "is_cancelled env 8 \<longleftrightarrow> is_cancelled env 7"
    using assms by (auto simp: is_cancelled_def split: option.splits)
  show ?thesis
  proof
    assume "executes env tutorials_steps 8"
    then have "\<not> is_cancelled env 7" "\<not> failed ?s7" "?o7 \<noteq> Failed" "?ok"
      using r8 f8 canc by auto
    then have "?o7 \<noteq> Skipped" using k7 r7 by simp
    then show "outcome_of env tutorials_steps 7 = Succeeded"
      using \<open>?o7 \<noteq> Failed\<close> o7 by (cases ?o7) simp_all
  next
    assume "outcome_of env tutorials_steps 7 = Succeeded"
    then have "?o7 = Succeeded" using o7 by simp
    then have "should_run env 7 ?s7 (tutorials_steps ! 7)" "?o7 \<noteq> Failed"
      using k7 by auto
    then show "executes env tutorials_steps 8"
      using r7 r8 f8 canc by simp
  qed
qed

section \<open>Properties of the job Deprecation\_Messages\_and\_Coverage\<close>

lemma length_coverage_steps: "length coverage_steps = 15"
  by (simp add: coverage_steps_def)

lemma coverage_step_12:
  "coverage_steps ! 12 =
     \<lparr> label = ''Combined Deprecation Messages'', condition = None,
       body = Run [OrList
                     (Ext (''sort'' # ''-f'' # ''-u'' #
                           map (\<lambda>(n, p). p @ ''/ml.dep'') (download_parts coverage_steps)))
                     TrueCmd] \<rparr>"
  by (simp add: coverage_steps_def download_parts_def)

lemma or_true_exit: "fst (run_script ex j cwd [OrList a TrueCmd]) = 0"
  by (simp split: prod.splits)

lemma or_true_never_fails:
  assumes "body s = Run [OrList a TrueCmd]"
  shows "step_outcome env i st s \<noteq> Failed"
proof -
  have "fst (run_script (exit_code env i) 0 [] [OrList a TrueCmd]) = 0"
    by (rule or_true_exit)
  then show ?thesis
    using assms
    by (auto simp: step_outcome_def run_step_def run_body_def succeed_def fail_def
             split: prod.splits)
qed

text \<open>
  C8: the script of the step \<^verbatim>\<open>Combined Deprecation Messages\<close> is the one line
  \<^verbatim>\<open>sort -f -u <the nine downloaded ml.dep files> || true\<close>. Its exit status is 0
  whatever the exit status of \<^verbatim>\<open>sort\<close>, so the step never fails: when it executes, it
  succeeds.
\<close>

theorem combined_deprecation_messages_never_fails:
  "label (coverage_steps ! 12) = ''Combined Deprecation Messages'' \<and>
   body (coverage_steps ! 12) =
     Run [OrList
            (Ext (''sort'' # ''-f'' # ''-u'' #
                  map (\<lambda>(n, p). p @ ''/ml.dep'') (download_parts coverage_steps)))
            TrueCmd] \<and>
   length (download_parts coverage_steps) = 9 \<and>
   fst (run_script ex 0 [] [OrList (Ext ws) TrueCmd]) = 0 \<and>
   outcome_of env coverage_steps 12 \<noteq> Failed \<and>
   (executes env coverage_steps 12 \<longrightarrow> outcome_of env coverage_steps 12 = Succeeded)"
proof -
  have b: "body (coverage_steps ! 12) =
     Run [OrList
            (Ext (''sort'' # ''-f'' # ''-u'' #
                  map (\<lambda>(n, p). p @ ''/ml.dep'') (download_parts coverage_steps)))
            TrueCmd]"
    by (subst coverage_step_12) simp
  have l: "label (coverage_steps ! 12) = ''Combined Deprecation Messages''"
    by (subst coverage_step_12) simp
  have n: "length (download_parts coverage_steps) = 9"
    by (simp add: coverage_steps_def download_parts_def)
  have f: "outcome_of env coverage_steps 12 \<noteq> Failed"
    using or_true_never_fails [OF b] by (simp add: outcome_of_step length_coverage_steps)
  have e: "executes env coverage_steps 12 \<longrightarrow> outcome_of env coverage_steps 12 = Succeeded"
    using f by (cases "outcome_of env coverage_steps 12") (simp_all add: executes_def)
  show ?thesis
    using b l n f e or_true_exit [of ex 0 "[]" "Ext ws"] by blast
qed

theorem combined_deprecation_messages_never_fails_witness:
  "exit_code sort_fails 12 0
     (Ext (''sort'' # ''-f'' # ''-u'' #
           map (\<lambda>(n, p). p @ ''/ml.dep'') (download_parts coverage_steps))) = 2 \<and>
   executes sort_fails coverage_steps 12 \<and>
   outcome_of sort_fails coverage_steps 12 = Succeeded"
proof -
  have x: "exit_code sort_fails 12 0
     (Ext (''sort'' # ''-f'' # ''-u'' #
           map (\<lambda>(n, p). p @ ''/ml.dep'') (download_parts coverage_steps))) = 2"
    by (simp add: sort_fails_def all_succeed_def)
  have e: "executes sort_fails coverage_steps 12" by code_simp
  then have "outcome_of sort_fails coverage_steps 12 = Succeeded"
    using combined_deprecation_messages_never_fails [of _ _ sort_fails] by blast
  then show ?thesis using x e by blast
qed

section \<open>Properties of the job MachineLearning\<close>

lemma eval_no_status:
  "\<not> has_status e \<Longrightarrow> eval (ctx\<lparr>ctx_status := x\<rparr>) e = eval ctx e"
  by (induction e) simp_all

lemma eval_context_at:
  assumes "\<not> has_status e"
  shows "eval (context_at env i st) e = eval (job_context (env_matrix env) (env_github env)) e"
proof -
  have "context_at env i st =
          (job_context (env_matrix env) (env_github env))\<lparr>ctx_status := status_at env i st\<rparr>"
    by (simp add: context_at_def job_context_def)
  then show ?thesis using assms by (simp add: eval_no_status)
qed

lemma should_run_plain:
  assumes "condition s = Some e" and "\<not> has_status e"
  shows "should_run env i st s \<longleftrightarrow>
           \<not> is_cancelled env i \<and> \<not> failed st \<and>
           truthy (eval (job_context (env_matrix env) (env_github env)) e)"
proof -
  have "should_run env i st s \<longleftrightarrow>
          ctx_status (context_at env i st) = StatusSuccess \<and> truthy (eval (context_at env i st) e)"
    using assms by (simp add: should_run_def effective_def)
  then have "should_run env i st s \<longleftrightarrow>
          ctx_status (context_at env i st) = StatusSuccess \<and>
          truthy (eval (job_context (env_matrix env) (env_github env)) e)"
    using assms(2) by (simp add: eval_context_at)
  then show ?thesis
    by (auto simp: context_at_def status_at_def)
qed

lemma should_run_default:
  assumes "condition s = None"
  shows "should_run env i st s \<longleftrightarrow> \<not> is_cancelled env i \<and> \<not> failed st"
  using assms by (auto simp: should_run_def effective_def context_at_def status_at_def)

lemma run_step_skip:
  "\<not> should_run env i st s \<Longrightarrow> run_step env i st s = st\<lparr>log := log st @ [Skipped]\<rparr>"
  by (simp add: run_step_def)

lemma run_step_Run:
  assumes "should_run env i st s" and "body s = Run sc" and "\<not> failed (run_step env i st s)"
  shows "fst (run_script (exit_code env i) 0 [] sc) = 0 \<and>
         files (run_step env i st s) =
           remdups (files st @ snd (run_script (exit_code env i) 0 [] sc)) \<and>
         uploaded (run_step env i st s) = uploaded st"
  using assms
  by (auto simp: run_step_def run_body_def succeed_def fail_def split: prod.splits if_splits)

lemma uploaded_other:
  assumes "\<And>n p. body s \<noteq> Upload n p"
  shows "uploaded (run_step env i st s) = uploaded st"
  using assms
  by (cases "body s")
     (auto simp: run_step_def run_body_def succeed_def fail_def split: prod.splits)

lemma run_step_Upload:
  assumes "should_run env i st s" and "body s = Upload n p"
  shows "uploaded (run_step env i st s) = uploaded st \<or>
         uploaded (run_step env i st s) =
           uploaded st @ [(render (context_at env i st) n, filter (path_match p) (files st))]"
  using assms by (auto simp: run_step_def run_body_def succeed_def fail_def Let_def)

lemma outputs_quiet: "outputs [] ws = [] \<Longrightarrow> outputs cwd ws = []"
  by (auto simp: outputs_def split: list.splits if_splits)

lemma exec_cmd_quiet: "quiet_cmd c \<Longrightarrow> fst (snd (exec_cmd ex cwd c)) = []"
proof (induction c arbitrary: cwd)
  case (OrList a b)
  obtain r fs d where e1: "exec_cmd ex cwd a = (r, fs, d)"
    by (cases "exec_cmd ex cwd a") auto
  obtain r' fs' d' where e2: "exec_cmd ex d b = (r', fs', d')"
    by (cases "exec_cmd ex d b") auto
  have "fs = []" using OrList.IH(1) [of cwd] OrList.prems e1 by simp
  moreover have "fs' = []" using OrList.IH(2) [of d] OrList.prems e2 by simp
  ultimately show ?case by (simp add: e1 e2)
qed (simp_all add: outputs_quiet)

lemma run_script_quiet: "list_all quiet_cmd sc \<Longrightarrow> snd (run_script ex j cwd sc) = []"
proof (induction sc arbitrary: j cwd)
  case Nil
  then show ?case by simp
next
  case (Cons c sc)
  obtain r fs d where e1: "exec_cmd (ex j) cwd c = (r, fs, d)"
    by (cases "exec_cmd (ex j) cwd c") auto
  obtain r' fs' where e2: "run_script ex (Suc j) d sc = (r', fs')"
    by (cases "run_script ex (Suc j) d sc") auto
  have "fs = []" using exec_cmd_quiet [of c "ex j" cwd] Cons.prems e1 by simp
  moreover have "fs' = []" using Cons.IH [of "Suc j" d] Cons.prems e2 by simp
  ultimately show ?case by (simp add: e1 e2)
qed

lemma run_step_quiet:
  assumes "quiet s" and "files st = []" and "uploaded st = []"
  shows "files (run_step env i st s) = [] \<and> uploaded (run_step env i st s) = []"
proof (cases "body s")
  case (Run sc)
  then have "snd (run_script (exit_code env i) 0 [] sc) = []"
    using assms(1) by (simp add: quiet_def run_script_quiet)
  then show ?thesis
    using Run assms(2,3)
    by (auto simp: run_step_def run_body_def succeed_def fail_def split: prod.splits)
next
  case (Uses a)
  then show ?thesis
    using assms(2,3) by (simp add: run_step_def run_body_def succeed_def fail_def)
next
  case (Upload n p)
  then show ?thesis using assms(1) by (simp add: quiet_def)
next
  case (Download n p)
  then show ?thesis
    using assms(2,3) by (simp add: run_step_def run_body_def succeed_def fail_def)
qed

lemma run_steps_quiet:
  assumes "list_all quiet ss" and "files st = []" and "uploaded st = []"
  shows "files (run_steps env i st ss) = [] \<and> uploaded (run_steps env i st ss) = []"
  using assms
proof (induction ss arbitrary: i st)
  case Nil
  then show ?case by simp
next
  case (Cons s ss)
  then show ?case using run_step_quiet [of s st env i] by simp
qed

lemma length_machine_learning_steps: "length machine_learning_steps = 11"
  by (simp add: machine_learning_steps_def)

lemma machine_learning_prefix_quiet: "list_all quiet (take 7 machine_learning_steps)"
  by (simp add: machine_learning_steps_def quiet_def outputs_def)

lemma machine_learning_step_7:
  "machine_learning_steps ! 7 =
     \<lparr> label = ''Deprecation Messages'', condition = None,
       body = Run [Ext [''mkdir'', ''./ci-artifact-data''],
                   Ext [''python'', ''tools/extract_deprecation.py'', ''-file'', ''out.txt'',
                        ''-output'', ''./ci-artifact-data/ml.dep'']] \<rparr>"
  by (simp add: machine_learning_steps_def)

lemma machine_learning_step_8:
  "machine_learning_steps ! 8 =
     \<lparr> label = ''Coverage combine'', condition = Some coverage_condition,
       body = Run [Ext [''coverage3'', ''combine''],
                   Ext [''mv'', ''.coverage'', ''./ci-artifact-data/ml.dat'']] \<rparr>"
  by (simp add: machine_learning_steps_def)

lemma machine_learning_step_9:
  "machine_learning_steps ! 9 =
     \<lparr> label = ''actions/upload-artifact@v4'', condition = None,
       body = Upload [Sub (MatrixVal ''os''), Text ''-'', Sub (MatrixVal ''python-version'')]
                     ''./ci-artifact-data/*'' \<rparr>"
  by (simp add: machine_learning_steps_def)

lemma machine_learning_step_10: "\<exists>sc. body (machine_learning_steps ! 10) = Run sc"
  by (simp add: machine_learning_steps_def)

lemma deprecation_script:
  assumes "fst (run_script ex 0 []
             [Ext [''mkdir'', ''./ci-artifact-data''],
              Ext [''python'', ''tools/extract_deprecation.py'', ''-file'', ''out.txt'',
                   ''-output'', ''./ci-artifact-data/ml.dep'']]) = 0"
  shows "snd (run_script ex 0 []
             [Ext [''mkdir'', ''./ci-artifact-data''],
              Ext [''python'', ''tools/extract_deprecation.py'', ''-file'', ''out.txt'',
                   ''-output'', ''./ci-artifact-data/ml.dep'']]) = [''./ci-artifact-data/ml.dep'']"
  using assms by (simp add: outputs_def resolve_def new_cwd_def split: if_splits)

lemma coverage_script:
  assumes "fst (run_script ex 0 []
             [Ext [''coverage3'', ''combine''],
              Ext [''mv'', ''.coverage'', ''./ci-artifact-data/ml.dat'']]) = 0"
  shows "snd (run_script ex 0 []
             [Ext [''coverage3'', ''combine''],
              Ext [''mv'', ''.coverage'', ''./ci-artifact-data/ml.dat'']]) = [''./ci-artifact-data/ml.dat'']"
  using assms by (simp add: outputs_def resolve_def new_cwd_def split: if_splits)

lemma artifact_data_match:
  "path_match ''./ci-artifact-data/*'' ''./ci-artifact-data/ml.dep''"
  "path_match ''./ci-artifact-data/*'' ''./ci-artifact-data/ml.dat''"
  by code_simp+

lemma render_artifact_name:
  "render (context_at env i st) [Sub (MatrixVal ''os''), Text ''-'', Sub (MatrixVal ''python-version'')] =
     fst (point (env_matrix env)) @ ''-'' @ snd (point (env_matrix env))"
  by (simp add: render_def context_at_def point_def split: option.splits)

lemma coverage_only_ubuntu_39:
  "list_all (\<lambda>c. produces_coverage c g \<longleftrightarrow> c = ubuntu_39) (expand machine_learning_matrix)"
  unfolding expand_machine_learning
  by (simp add: produces_coverage_def coverage_condition_def job_context_def ubuntu_39_def
      loose_eq_def lower_def lower_char_def parse_num_def parse_nat_def parse_fraction_def
      digit_val_def)

lemma machine_learning_uploaded:
  "uploaded (run_job env machine_learning_steps) = [] \<or>
   uploaded (run_job env machine_learning_steps) =
     [(fst (point (env_matrix env)) @ ''-'' @ snd (point (env_matrix env)),
       if produces_coverage (env_matrix env) (env_github env)
       then [''./ci-artifact-data/ml.dep'', ''./ci-artifact-data/ml.dat'']
       else [''./ci-artifact-data/ml.dep''])]"
proof -
  let ?ml = machine_learning_steps
  let ?S = "state_before env ?ml"
  let ?cov = "produces_coverage (env_matrix env) (env_github env)"
  have S7: "files (?S 7) = [] \<and> uploaded (?S 7) = []"
    unfolding state_before_def
    by (rule run_steps_quiet [OF machine_learning_prefix_quiet]) (simp_all add: init_state_def)
  have S8: "?S 8 = run_step env 7 (?S 7) (?ml ! 7)"
    using state_before_Suc [of 7 ?ml env] by (simp add: length_machine_learning_steps)
  have S9: "?S 9 = run_step env 8 (?S 8) (?ml ! 8)"
    using state_before_Suc [of 8 ?ml env] by (simp add: length_machine_learning_steps)
  have S10: "?S 10 = run_step env 9 (?S 9) (?ml ! 9)"
    using state_before_Suc [of 9 ?ml env] by (simp add: length_machine_learning_steps)
  have S11: "?S 11 = run_step env 10 (?S 10) (?ml ! 10)"
    using state_before_Suc [of 10 ?ml env] by (simp add: length_machine_learning_steps)
  have fin: "run_job env ?ml = ?S 11"
    by (simp add: state_before_def run_job_def length_machine_learning_steps)
  have b7: "body (?ml ! 7) = Run [Ext [''mkdir'', ''./ci-artifact-data''],
                   Ext [''python'', ''tools/extract_deprecation.py'', ''-file'', ''out.txt'',
                        ''-output'', ''./ci-artifact-data/ml.dep'']]"
    and c7: "condition (?ml ! 7) = None"
    by (subst machine_learning_step_7, simp)+
  have b8: "body (?ml ! 8) = Run [Ext [''coverage3'', ''combine''],
                   Ext [''mv'', ''.coverage'', ''./ci-artifact-data/ml.dat'']]"
    and c8: "condition (?ml ! 8) = Some coverage_condition"
    by (subst machine_learning_step_8, simp)+
  have b9: "body (?ml ! 9) =
              Upload [Sub (MatrixVal ''os''), Text ''-'', Sub (MatrixVal ''python-version'')]
                     ''./ci-artifact-data/*''"
    and c9: "condition (?ml ! 9) = None"
    by (subst machine_learning_step_9, simp)+
  have u8: "uploaded (?S 8) = []"
    unfolding S8 using S7 b7 by (simp add: uploaded_other)
  have u9: "uploaded (?S 9) = []"
    unfolding S9 using u8 b8 by (simp add: uploaded_other)
  have u11: "uploaded (run_job env ?ml) = uploaded (?S 10)"
    unfolding fin S11 using machine_learning_step_10 by (auto simp: uploaded_other)
  show ?thesis
  proof (cases "should_run env 9 (?S 9) (?ml ! 9)")
    case False
    then have "uploaded (?S 10) = []"
      unfolding S10 using u9 by (simp add: run_step_skip)
    then show ?thesis using u11 by simp
  next
    case True
    then have n9: "\<not> is_cancelled env 9" "\<not> failed (?S 9)"
      by (simp_all add: should_run_default [OF c9])
    then have n8: "\<not> is_cancelled env 8" "\<not> failed (?S 8)"
      using failed_run_step [of env 8 "?S 8" "?ml ! 8"] S9
      by (auto simp: is_cancelled_def split: option.splits)
    then have n7: "\<not> is_cancelled env 7" "\<not> failed (?S 7)"
      using failed_run_step [of env 7 "?S 7" "?ml ! 7"] S8
      by (auto simp: is_cancelled_def split: option.splits)
    have r7: "should_run env 7 (?S 7) (?ml ! 7)"
      using n7 by (simp add: should_run_default [OF c7])
    have f8: "files (?S 8) = [''./ci-artifact-data/ml.dep'']"
      using run_step_Run [OF r7 b7] n8(2) S7 deprecation_script [of "exit_code env 7"]
      by (simp add: S8)
    have f9: "files (?S 9) =
                (if ?cov then [''./ci-artifact-data/ml.dep'', ''./ci-artifact-data/ml.dat'']
                 else [''./ci-artifact-data/ml.dep''])"
    proof (cases ?cov)
      case True
      then have r8: "should_run env 8 (?S 8) (?ml ! 8)"
        using n8 by (simp add: should_run_plain [OF c8] coverage_condition_def produces_coverage_def)
      show ?thesis
        using run_step_Run [OF r8 b8] n9(2) f8 coverage_script [of "exit_code env 8"] True
        by (simp add: S9)
    next
      case False
      then have "\<not> should_run env 8 (?S 8) (?ml ! 8)"
        by (simp add: should_run_plain [OF c8] coverage_condition_def produces_coverage_def)
      then show ?thesis
        using f8 False by (simp add: S9 run_step_skip)
    qed
    have "filter (path_match ''./ci-artifact-data/*'') (files (?S 9)) = files (?S 9)"
      unfolding f9 by (simp add: artifact_data_match)
    then show ?thesis
      using run_step_Upload [OF True b9] u9 u11 f9
      by (auto simp: S10 render_artifact_name)
  qed
qed

text \<open>
  C9: in MachineLearning the step \<^verbatim>\<open>Coverage combine\<close> has the condition
  \<^verbatim>\<open>matrix.os == 'ubuntu-latest' && matrix.python-version == 3.9\<close>, which holds for the
  combination ubuntu-latest with 3.9 and for no other of the nine; the step executes
  for that combination only. The artifact that a combination uploads holds
  \<^verbatim>\<open>ml.dep\<close> and, for that combination only, \<^verbatim>\<open>ml.dat\<close>. Its artifact
  \<^verbatim>\<open>ubuntu-latest-3.9\<close> is downloaded to \<^verbatim>\<open>/tmp/u39\<close>, and the coverage step of
  Deprecation\_Messages\_and\_Coverage reads the one file \<^verbatim>\<open>/tmp/u39/ml.dat\<close>.
\<close>

theorem coverage_from_ubuntu_39_only:
  "label (machine_learning_steps ! 8) = ''Coverage combine'' \<and>
   condition (machine_learning_steps ! 8) = Some coverage_condition \<and>
   (\<forall>c \<in> set (expand machine_learning_matrix). produces_coverage c g \<longleftrightarrow> c = ubuntu_39) \<and>
   (env_matrix env \<in> set (expand machine_learning_matrix) \<and>
    executes env machine_learning_steps 8 \<longrightarrow> env_matrix env = ubuntu_39) \<and>
   (env_matrix env \<in> set (expand machine_learning_matrix) \<longrightarrow>
      uploaded (run_job env machine_learning_steps) = [] \<or>
      uploaded (run_job env machine_learning_steps) =
        [(fst (point (env_matrix env)) @ ''-'' @ snd (point (env_matrix env)),
          if env_matrix env = ubuntu_39
          then [''./ci-artifact-data/ml.dep'', ''./ci-artifact-data/ml.dat'']
          else [''./ci-artifact-data/ml.dep''])]) \<and>
   fst (point ubuntu_39) @ ''-'' @ snd (point ubuntu_39) = ''ubuntu-latest-3.9'' \<and>
   download_dir g ''ubuntu-latest-3.9'' = Some ''/tmp/u39'' \<and>
   label (coverage_steps ! 13) = ''Coverage combine'' \<and>
   body (coverage_steps ! 13) = Run [Ext [''coverage3'', ''combine'', ''/tmp/u39/ml.dat'']]"
proof (intro conjI impI)
  show "label (machine_learning_steps ! 8) = ''Coverage combine''"
    by (subst machine_learning_step_8) simp
  show "condition (machine_learning_steps ! 8) = Some coverage_condition"
    by (subst machine_learning_step_8) simp
  show "\<forall>c \<in> set (expand machine_learning_matrix). produces_coverage c g \<longleftrightarrow> c = ubuntu_39"
    using coverage_only_ubuntu_39 [of g] by (simp add: list_all_iff)
  show "fst (point ubuntu_39) @ ''-'' @ snd (point ubuntu_39) = ''ubuntu-latest-3.9''"
    by (simp add: point_def ubuntu_39_def show_num_versions)
  show "download_dir g ''ubuntu-latest-3.9'' = Some ''/tmp/u39''"
    by (simp add: download_dir_def download_parts_def coverage_steps_def render_def)
  show "label (coverage_steps ! 13) = ''Coverage combine''"
    by (simp add: coverage_steps_def)
  show "body (coverage_steps ! 13) = Run [Ext [''coverage3'', ''combine'', ''/tmp/u39/ml.dat'']]"
    by (simp add: coverage_steps_def)
next
  assume a: "env_matrix env \<in> set (expand machine_learning_matrix) \<and>
             executes env machine_learning_steps 8"
  have "condition (machine_learning_steps ! 8) = Some coverage_condition"
    by (subst machine_learning_step_8) simp
  then have "produces_coverage (env_matrix env) (env_github env)"
    using a by (simp add: executes_iff should_run_plain coverage_condition_def
        produces_coverage_def)
  then show "env_matrix env = ubuntu_39"
    using a coverage_only_ubuntu_39 [of "env_github env"] by (simp add: list_all_iff)
next
  assume a: "env_matrix env \<in> set (expand machine_learning_matrix)"
  then have "produces_coverage (env_matrix env) (env_github env) \<longleftrightarrow> env_matrix env = ubuntu_39"
    using coverage_only_ubuntu_39 [of "env_github env"] by (simp add: list_all_iff)
  then show "uploaded (run_job env machine_learning_steps) = [] \<or>
      uploaded (run_job env machine_learning_steps) =
        [(fst (point (env_matrix env)) @ ''-'' @ snd (point (env_matrix env)),
          if env_matrix env = ubuntu_39
          then [''./ci-artifact-data/ml.dep'', ''./ci-artifact-data/ml.dat'']
          else [''./ci-artifact-data/ml.dep''])]"
    using machine_learning_uploaded [of env] by simp
qed

theorem coverage_from_ubuntu_39_only_witness:
  "env_matrix all_succeed \<in> set (expand machine_learning_matrix) \<and>
   executes all_succeed machine_learning_steps 8 \<and>
   env_matrix all_succeed = ubuntu_39 \<and>
   uploaded (run_job all_succeed machine_learning_steps) =
     [(''ubuntu-latest-3.9'', [''./ci-artifact-data/ml.dep'', ''./ci-artifact-data/ml.dat''])] \<and>
   env_matrix all_succeed_macos \<in> set (expand machine_learning_matrix) \<and>
   uploaded (run_job all_succeed_macos machine_learning_steps) =
     [(''macos-latest-3.13'', [''./ci-artifact-data/ml.dep''])]"
proof -
  note T = coverage_from_ubuntu_39_only [of "env_github all_succeed" all_succeed]
  note M = coverage_from_ubuntu_39_only [of "env_github all_succeed_macos" all_succeed_macos]
  have m: "env_matrix all_succeed \<in> set (expand machine_learning_matrix)"
    by (simp add: expand_machine_learning all_succeed_def)
  have e: "executes all_succeed machine_learning_steps 8" by code_simp
  have u: "env_matrix all_succeed = ubuntu_39" using T m e by blast
  have n: "uploaded (run_job all_succeed machine_learning_steps) \<noteq> []" by code_simp
  have "uploaded (run_job all_succeed machine_learning_steps) =
          [(fst (point ubuntu_39) @ ''-'' @ snd (point ubuntu_39),
            [''./ci-artifact-data/ml.dep'', ''./ci-artifact-data/ml.dat''])]"
    using T m n u by auto
  then have a: "uploaded (run_job all_succeed machine_learning_steps) =
     [(''ubuntu-latest-3.9'', [''./ci-artifact-data/ml.dep'', ''./ci-artifact-data/ml.dat''])]"
    using T by simp
  have m': "env_matrix all_succeed_macos \<in> set (expand machine_learning_matrix)"
    by (simp add: expand_machine_learning all_succeed_macos_def macos_313_def)
  have n': "uploaded (run_job all_succeed_macos machine_learning_steps) \<noteq> []" by code_simp
  have d: "env_matrix all_succeed_macos \<noteq> ubuntu_39"
    by (simp add: all_succeed_macos_def macos_313_def ubuntu_39_def)
  have p: "fst (point (env_matrix all_succeed_macos)) @ ''-'' @
           snd (point (env_matrix all_succeed_macos)) = ''macos-latest-3.13''"
    by (simp add: all_succeed_macos_def macos_313_def point_def show_num_versions)
  have "uploaded (run_job all_succeed_macos machine_learning_steps) =
          [(fst (point (env_matrix all_succeed_macos)) @ ''-'' @
            snd (point (env_matrix all_succeed_macos)), [''./ci-artifact-data/ml.dep''])]"
    using M m' n' d by auto
  then have b: "uploaded (run_job all_succeed_macos machine_learning_steps) =
     [(''macos-latest-3.13'', [''./ci-artifact-data/ml.dep''])]"
    unfolding p .
  show ?thesis using m e u a m' b by blast
qed

section \<open>Properties of the stable tutorials artifact\<close>

lemma uploaded_run_steps_other:
  assumes "list_all (\<lambda>s. case body s of Upload n p \<Rightarrow> False | _ \<Rightarrow> True) ss"
  shows "uploaded (run_steps env i st ss) = uploaded st"
  using assms
proof (induction ss arbitrary: i st)
  case Nil
  then show ?case by simp
next
  case (Cons s ss)
  then have "\<And>n p. body s \<noteq> Upload n p" by (auto split: body.splits)
  then have "uploaded (run_step env i st s) = uploaded st" by (rule uploaded_other)
  then show ?case using Cons by simp
qed

lemma run_step_Upload_ok:
  assumes "should_run env i st s" and "body s = Upload n p" and "action_ok env i"
    and "filter (path_match p) (files st) \<noteq> []"
  shows "uploaded (run_step env i st s) =
           uploaded st @ [(render (context_at env i st) n, filter (path_match p) (files st))]"
  using assms by (simp add: run_step_def run_body_def succeed_def Let_def)

lemma tutorials_step_6:
  "tutorials_steps ! 6 =
     \<lparr> label = ''Run upload tutorials'', condition = None,
       body = Upload [Text ''tutorials'', Sub (MatrixVal ''python-version'')]
                     ''docs/_build/html/artifacts/tutorials.tar.gz'' \<rparr>"
  by (simp add: tutorials_steps_def)

lemma tutorials_prefix_no_upload:
  "list_all (\<lambda>s. case body s of Upload n p \<Rightarrow> False | _ \<Rightarrow> True) (take 6 tutorials_steps)"
  by (simp add: tutorials_steps_def)

lemma stable_build_script:
  assumes "body (tutorials_steps ! 7) = Run sc" and "fst (run_script ex 0 [] sc) = 0"
  shows "snd (run_script ex 0 [] sc) = [''docs/_build/html/artifacts/tutorials.tar.gz'']"
proof -
  have "sc = [Ext [''make'', ''clean_sphinx''], Opaque 236, Opaque 238,
              Ext [''unzip'', ''/tmp/repo.zip'', ''-d'', ''/tmp/''], Opaque 241, Opaque 243,
              Ext [''tools/ignore_untagged_notes.sh''], Ext [''make'', ''html''],
              Ext [''cd'', ''docs/_build/html''], Ext [''mkdir'', ''artifacts''],
              Ext [''tar'', ''-zcvf'', ''artifacts/tutorials.tar.gz'',
                   ''--exclude=./artifacts'', ''.'']]"
    using assms(1) by (simp add: tutorials_steps_def)
  then show ?thesis
    using assms(2) by (simp add: outputs_def resolve_def new_cwd_def split: if_splits)
qed

lemma stable_archive_match:
  "path_match ''docs/_build/html/artifacts/tutorials.tar.gz''
     ''docs/_build/html/artifacts/tutorials.tar.gz''"
  by code_simp

lemma render_tutorials_names:
  "render (context_at env i st) [Text ''tutorials'', Sub (MatrixVal ''python-version'')] =
     ''tutorials'' @ snd (point (env_matrix env))"
  "render (context_at env i st) [Text ''tutorials-stable'', Sub (MatrixVal ''python-version'')] =
     ''tutorials-stable'' @ snd (point (env_matrix env))"
  by (simp_all add: render_def context_at_def point_def split: option.splits)

lemma tutorials_versions:
  assumes "env_matrix env \<in> set (expand tutorials_matrix)"
  shows "env_matrix env = [(''os'', Str ''ubuntu-latest''), (''python-version'', Num 390)] \<and>
           snd (point (env_matrix env)) = ''3.9'' \<or>
         env_matrix env = [(''os'', Str ''ubuntu-latest''), (''python-version'', Num 313)] \<and>
           snd (point (env_matrix env)) = ''3.13''"
  using assms unfolding expand_tutorials
  by (auto simp: point_def show_num_versions)

lemma stable_condition_version:
  assumes "env_matrix env \<in> set (expand tutorials_matrix)"
    and "truthy (eval (job_context (env_matrix env) (env_github env)) stable_build_condition)"
  shows "snd (point (env_matrix env)) = ''3.9''"
proof -
  have "\<not> truthy (eval (job_context [(''os'', Str ''ubuntu-latest''), (''python-version'', Num 313)]
                          (env_github env)) stable_build_condition)"
    by (simp add: stable_build_condition_def job_context_def loose_eq_def)
  then show ?thesis
    using tutorials_versions [OF assms(1)] assms(2) by auto
qed

lemma stable_artifact_iff_built:
  assumes c: "cancelled_from env \<noteq> Some 8"
    and ok: "action_ok env 8"
    and m: "env_matrix env \<in> set (expand tutorials_matrix)"
  shows "(\<exists>fs. (''tutorials-stable3.9'', fs) \<in> set (uploaded (run_job env tutorials_steps))) \<longleftrightarrow>
         outcome_of env tutorials_steps 7 = Succeeded"
proof -
  let ?ts = tutorials_steps
  let ?S = "state_before env ?ts"
  let ?p = "''docs/_build/html/artifacts/tutorials.tar.gz''"
  let ?v = "snd (point (env_matrix env))"
  have fin: "run_job env ?ts = ?S 9"
    by (simp add: state_before_def run_job_def length_tutorials_steps)
  have S7: "?S 7 = run_step env 6 (?S 6) (?ts ! 6)"
    using state_before_Suc [of 6 ?ts env] by (simp add: length_tutorials_steps)
  have S8: "?S 8 = run_step env 7 (?S 7) (?ts ! 7)"
    using state_before_Suc [of 7 ?ts env] by (simp add: length_tutorials_steps)
  have S9: "?S 9 = run_step env 8 (?S 8) (?ts ! 8)"
    using state_before_Suc [of 8 ?ts env] by (simp add: length_tutorials_steps)
  have b6: "body (?ts ! 6) = Upload [Text ''tutorials'', Sub (MatrixVal ''python-version'')] ?p"
    by (subst tutorials_step_6) simp
  obtain sc where b7: "body (?ts ! 7) = Run sc"
    by (simp add: tutorials_steps_def)
  have c7: "condition (?ts ! 7) = Some stable_build_condition"
    by (subst tutorials_step_7) simp
  have b8: "body (?ts ! 8) =
              Upload [Text ''tutorials-stable'', Sub (MatrixVal ''python-version'')] ?p"
    by (subst tutorials_step_8) simp
  have c8: "condition (?ts ! 8) = Some stable_build_condition"
    by (subst tutorials_step_8) (simp add: same_stable_condition)
  have u6: "uploaded (?S 6) = []"
    unfolding state_before_def
    using uploaded_run_steps_other [OF tutorials_prefix_no_upload, of env 0 init_state]
    by (simp add: init_state_def)
  have u7: "uploaded (?S 7) = [] \<or> (\<exists>fs. uploaded (?S 7) = [(''tutorials'' @ ?v, fs)])"
  proof (cases "should_run env 6 (?S 6) (?ts ! 6)")
    case True
    then show ?thesis
      using run_step_Upload [OF True b6] u6 by (auto simp: S7 render_tutorials_names)
  next
    case False
    then show ?thesis using u6 by (simp add: S7 run_step_skip)
  qed
  have u8: "uploaded (?S 8) = uploaded (?S 7)"
    unfolding S8 using b7 by (simp add: uploaded_other)
  have v: "?v = ''3.9'' \<or> ?v = ''3.13''"
    using tutorials_versions [OF m] by auto
  have no8: "\<And>fs. (''tutorials-stable3.9'', fs) \<notin> set (uploaded (?S 8))"
    using u7 v unfolding u8 by auto
  show ?thesis
  proof
    assume "\<exists>fs. (''tutorials-stable3.9'', fs) \<in> set (uploaded (run_job env ?ts))"
    then obtain fs where fs: "(''tutorials-stable3.9'', fs) \<in> set (uploaded (?S 9))"
      unfolding fin by blast
    have "should_run env 8 (?S 8) (?ts ! 8)"
    proof (rule ccontr)
      assume "\<not> should_run env 8 (?S 8) (?ts ! 8)"
      then have "uploaded (?S 9) = uploaded (?S 8)" by (simp add: S9 run_step_skip)
      then show False using fs no8 by simp
    qed
    then have "executes env ?ts 8" by (simp add: executes_iff length_tutorials_steps)
    then show "outcome_of env ?ts 7 = Succeeded" using upload_iff_built [OF c] by simp
  next
    assume o7: "outcome_of env ?ts 7 = Succeeded"
    then have "executes env ?ts 8" using upload_iff_built [OF c] by simp
    then have r8: "should_run env 8 (?S 8) (?ts ! 8)" by (simp add: executes_iff)
    then have nf8: "\<not> failed (?S 8)"
      and t: "truthy (eval (job_context (env_matrix env) (env_github env)) stable_build_condition)"
      by (simp_all add: should_run_stable_build [OF c8])
    have "step_outcome env 7 (?S 7) (?ts ! 7) = Succeeded"
      using o7 by (simp add: outcome_of_step length_tutorials_steps)
    then have r7: "should_run env 7 (?S 7) (?ts ! 7)"
      using step_outcome_skipped [of env 7 "?S 7" "?ts ! 7"] by simp
    have nf8': "\<not> failed (run_step env 7 (?S 7) (?ts ! 7))" using nf8 S8 by simp
    have x: "fst (run_script (exit_code env 7) 0 [] sc) = 0"
      and f8: "files (?S 8) = remdups (files (?S 7) @ snd (run_script (exit_code env 7) 0 [] sc))"
      using run_step_Run [OF r7 b7 nf8'] by (simp_all add: S8)
    have "snd (run_script (exit_code env 7) 0 [] sc) = [?p]"
      using stable_build_script [OF b7 x] .
    then have "?p \<in> set (files (?S 8))" unfolding f8 by simp
    then have ne: "filter (path_match ?p) (files (?S 8)) \<noteq> []"
      using stable_archive_match by (auto simp: filter_empty_conv)
    have "?v = ''3.9''" using stable_condition_version [OF m t] .
    then have "uploaded (?S 9) =
                 uploaded (?S 8) @ [(''tutorials-stable3.9'', filter (path_match ?p) (files (?S 8)))]"
      using run_step_Upload_ok [OF r8 b8 ok ne] by (simp add: S9 render_tutorials_names)
    then show "\<exists>fs. (''tutorials-stable3.9'', fs) \<in> set (uploaded (run_job env ?ts))"
      unfolding fin by auto
  qed
qed

text \<open>
  C10: in the job Tutorials the step \<^verbatim>\<open>Run upload stable tutorials\<close> carries the same
  condition as the step \<^verbatim>\<open>Run stable tutorials\<close>: the version is 3.9, the ref does
  not start with \<^verbatim>\<open>refs/heads/stable\<close> and the base ref does not start with
  \<^verbatim>\<open>stable/\<close>. In every run that is not cancelled between the two steps, the upload
  step executes if and only if the build step has executed and succeeded; when moreover
  the upload action succeeds, the artifact \<^verbatim>\<open>tutorials-stable3.9\<close> is uploaded if and
  only if the build step has executed and succeeded.
\<close>

theorem stable_upload_iff_built:
  "label (tutorials_steps ! 7) = ''Run stable tutorials'' \<and>
   label (tutorials_steps ! 8) = ''Run upload stable tutorials'' \<and>
   condition (tutorials_steps ! 7) = Some stable_build_condition \<and>
   condition (tutorials_steps ! 8) = Some stable_upload_condition \<and>
   stable_upload_condition = stable_build_condition \<and>
   (truthy (eval (job_context c g) stable_build_condition) \<longleftrightarrow>
      loose_eq (eval (job_context c g) (MatrixVal ''python-version'')) (Num 390) \<and>
      \<not> starts_with (to_string (g ''ref'')) ''refs/heads/stable'' \<and>
      \<not> starts_with (to_string (g ''base_ref'')) ''stable/'') \<and>
   (cancelled_from env \<noteq> Some 8 \<longrightarrow>
      (executes env tutorials_steps 8 \<longleftrightarrow> outcome_of env tutorials_steps 7 = Succeeded)) \<and>
   (cancelled_from env \<noteq> Some 8 \<and> action_ok env 8 \<and>
    env_matrix env \<in> set (expand tutorials_matrix) \<longrightarrow>
      ((\<exists>fs. (''tutorials-stable3.9'', fs) \<in> set (uploaded (run_job env tutorials_steps))) \<longleftrightarrow>
       outcome_of env tutorials_steps 7 = Succeeded))"
proof (intro conjI impI)
  show "label (tutorials_steps ! 7) = ''Run stable tutorials''"
    by (subst tutorials_step_7) simp
  show "label (tutorials_steps ! 8) = ''Run upload stable tutorials''"
    by (subst tutorials_step_8) simp
  show "condition (tutorials_steps ! 7) = Some stable_build_condition"
    by (subst tutorials_step_7) simp
  show "condition (tutorials_steps ! 8) = Some stable_upload_condition"
    by (subst tutorials_step_8) simp
  show "stable_upload_condition = stable_build_condition"
    by (rule same_stable_condition)
  show "truthy (eval (job_context c g) stable_build_condition) \<longleftrightarrow>
      loose_eq (eval (job_context c g) (MatrixVal ''python-version'')) (Num 390) \<and>
      \<not> starts_with (to_string (g ''ref'')) ''refs/heads/stable'' \<and>
      \<not> starts_with (to_string (g ''base_ref'')) ''stable/''"
    by (simp add: stable_build_condition_def job_context_def)
next
  assume "cancelled_from env \<noteq> Some 8"
  then show "executes env tutorials_steps 8 \<longleftrightarrow> outcome_of env tutorials_steps 7 = Succeeded"
    by (rule upload_iff_built)
next
  assume "cancelled_from env \<noteq> Some 8 \<and> action_ok env 8 \<and>
          env_matrix env \<in> set (expand tutorials_matrix)"
  then show "(\<exists>fs. (''tutorials-stable3.9'', fs) \<in> set (uploaded (run_job env tutorials_steps))) \<longleftrightarrow>
       outcome_of env tutorials_steps 7 = Succeeded"
    using stable_artifact_iff_built [of env] by blast
qed

theorem stable_upload_iff_built_witness:
  "cancelled_from all_succeed \<noteq> Some 8 \<and>
   action_ok all_succeed 8 \<and>
   env_matrix all_succeed \<in> set (expand tutorials_matrix) \<and>
   outcome_of all_succeed tutorials_steps 7 = Succeeded \<and>
   executes all_succeed tutorials_steps 8 \<and>
   (\<exists>fs. (''tutorials-stable3.9'', fs) \<in> set (uploaded (run_job all_succeed tutorials_steps)))"
proof -
  note T = stable_upload_iff_built [of _ _ all_succeed]
  have c: "cancelled_from all_succeed \<noteq> Some 8" by (simp add: all_succeed_def)
  have a: "action_ok all_succeed 8" by (simp add: all_succeed_def)
  have m: "env_matrix all_succeed \<in> set (expand tutorials_matrix)"
    by (simp add: expand_tutorials all_succeed_def)
  have b: "outcome_of all_succeed tutorials_steps 7 = Succeeded" by code_simp
  have e: "executes all_succeed tutorials_steps 8"
    using T c b by blast
  have u: "\<exists>fs. (''tutorials-stable3.9'', fs) \<in> set (uploaded (run_job all_succeed tutorials_steps))"
    using T c a m b by blast
  show ?thesis
    by (intro conjI) (fact c, fact a, fact m, fact b, fact e, fact u)
qed

text \<open>
  Two runs of Tutorials on main with Python 3.9 in which the archive of the stable
  tutorials is built and no artifact \<^verbatim>\<open>tutorials-stable3.9\<close> is uploaded: the only
  artifact is \<^verbatim>\<open>tutorials3.9\<close>. In the first the run is cancelled after
  \<^verbatim>\<open>Run stable tutorials\<close> has ended, and the upload step is skipped. In the second the
  upload step executes and its action fails.
\<close>

theorem stable_built_not_uploaded:
  "outcome_of cancelled_after_build tutorials_steps 7 = Succeeded \<and>
   \<not> executes cancelled_after_build tutorials_steps 8 \<and>
   map fst (uploaded (run_job cancelled_after_build tutorials_steps)) = [''tutorials3.9''] \<and>
   outcome_of upload_fails tutorials_steps 7 = Succeeded \<and>
   outcome_of upload_fails tutorials_steps 8 = Failed \<and>
   map fst (uploaded (run_job upload_fails tutorials_steps)) = [''tutorials3.9'']"
  by code_simp

section \<open>Properties of the order of the jobs\<close>

lemma needed_not_finished:
  assumes "list_all (\<lambda>d. \<sigma> d = Finished True) ds" and "\<sigma> i \<noteq> Finished True"
  shows "list_all (\<lambda>d. (\<sigma>(i := p)) d = Finished True) ds"
  using assms by (auto simp: list_all_iff)

lemma apply_action_keeps_needed:
  assumes a: "apply_action js \<sigma> a = Some \<sigma>'"
    and self: "\<And>k. (n, k) \<notin> set (needed js n)"
    and inv: "\<And>k. started (\<sigma> (n, k)) \<Longrightarrow> list_all (\<lambda>d. \<sigma> d = Finished True) (needed js n)"
    and st: "started (\<sigma>' (n, k))"
  shows "list_all (\<lambda>d. \<sigma>' d = Finished True) (needed js n)"
proof (cases a)
  case (Start i)
  then have g: "\<sigma> i = Waiting" "list_all (\<lambda>d. \<sigma> d = Finished True) (needed js (fst i))"
    and s': "\<sigma>' = \<sigma>(i := Running)"
    using a by (auto split: if_splits)
  show ?thesis
  proof (cases "i = (n, k)")
    case True
    then have "list_all (\<lambda>d. \<sigma> d = Finished True) (needed js n)" using g(2) by simp
    moreover have "i \<notin> set (needed js n)" using True self by simp
    ultimately show ?thesis unfolding s' by (auto simp: list_all_iff)
  next
    case False
    then have "started (\<sigma> (n, k))" using st s' by simp
    then have "list_all (\<lambda>d. \<sigma> d = Finished True) (needed js n)" by (rule inv)
    then show ?thesis unfolding s' using g(1) by (intro needed_not_finished) simp_all
  qed
next
  case (Finish i ok)
  then have g: "\<sigma> i = Running" and s': "\<sigma>' = \<sigma>(i := Finished ok)"
    using a by (auto split: if_splits)
  have "started (\<sigma> (n, k))"
    using st s' g by (cases "i = (n, k)") simp_all
  then have "list_all (\<lambda>d. \<sigma> d = Finished True) (needed js n)" by (rule inv)
  then show ?thesis unfolding s' using g by (intro needed_not_finished) simp_all
next
  case (Drop i)
  then have g: "\<sigma> i = Waiting \<or> \<sigma> i = Running" and s': "\<sigma>' = \<sigma>(i := NotRun)"
    using a by (auto split: if_splits)
  have "started (\<sigma> (n, k))"
    using st s' by (cases "i = (n, k)") simp_all
  then have "list_all (\<lambda>d. \<sigma> d = Finished True) (needed js n)" by (rule inv)
  then show ?thesis unfolding s' using g by (intro needed_not_finished) auto
qed

lemma run_actions_keep_needed:
  assumes "run_actions js \<sigma> as = Some \<sigma>'"
    and "\<And>k. (n, k) \<notin> set (needed js n)"
    and "\<And>k. started (\<sigma> (n, k)) \<Longrightarrow> list_all (\<lambda>d. \<sigma> d = Finished True) (needed js n)"
    and "started (\<sigma>' (n, k))"
  shows "list_all (\<lambda>d. \<sigma>' d = Finished True) (needed js n)"
  using assms
proof (induction as arbitrary: \<sigma> k)
  case Nil
  then show ?case by simp
next
  case (Cons a as)
  then obtain \<tau> where t: "apply_action js \<sigma> a = Some \<tau>" "run_actions js \<tau> as = Some \<sigma>'"
    by (auto split: option.splits)
  have "\<And>k. started (\<tau> (n, k)) \<Longrightarrow> list_all (\<lambda>d. \<tau> d = Finished True) (needed js n)"
    using apply_action_keeps_needed [OF t(1) Cons.prems(2)] Cons.prems(3) by blast
  then show ?case
    using Cons.IH [OF t(2) Cons.prems(2) _ Cons.prems(4)] by blast
qed

lemma needed_coverage:
  "needed workflow_jobs ''Deprecation_Messages_and_Coverage'' =
     [(''Checks'', 0),
      (''MachineLearning'', 0), (''MachineLearning'', 1), (''MachineLearning'', 2),
      (''MachineLearning'', 3), (''MachineLearning'', 4), (''MachineLearning'', 5),
      (''MachineLearning'', 6), (''MachineLearning'', 7), (''MachineLearning'', 8),
      (''Tutorials'', 0), (''Tutorials'', 1)]"
  by code_simp

lemma instances_of_jobs:
  "instances_named workflow_jobs ''Checks'' = [(''Checks'', 0)]"
  "instances_named workflow_jobs ''MachineLearning'' =
     map (\<lambda>k. (''MachineLearning'', k)) [0, 1, 2, 3, 4, 5, 6, 7, 8]"
  "instances_named workflow_jobs ''Tutorials'' = [(''Tutorials'', 0), (''Tutorials'', 1)]"
  "instances_named workflow_jobs ''Deprecation_Messages_and_Coverage'' = [coverage_job]"
  by code_simp+

text \<open>
  C1: the job Deprecation\_Messages\_and\_Coverage needs Checks, MachineLearning and
  Tutorials. In every state that a run can reach, if the job is running or has finished,
  then every instance of the three jobs (one of Checks, nine of MachineLearning, two of
  Tutorials) has finished with success: none of them is waiting or running.
\<close>

theorem coverage_job_starts_last:
  "map job_id workflow_jobs =
     [''Checks'', ''MachineLearning'', ''Tutorials'', ''Deprecation_Messages_and_Coverage''] \<and>
   needs (workflow_jobs ! 3) = [''Checks'', ''MachineLearning'', ''Tutorials''] \<and>
   instances_named workflow_jobs ''Deprecation_Messages_and_Coverage'' = [coverage_job] \<and>
   needed workflow_jobs ''Deprecation_Messages_and_Coverage'' =
     instances_named workflow_jobs ''Checks'' @
     instances_named workflow_jobs ''MachineLearning'' @
     instances_named workflow_jobs ''Tutorials'' \<and>
   (run_actions workflow_jobs all_waiting as = Some \<sigma> \<and> started (\<sigma> coverage_job) \<longrightarrow>
      (\<forall>d \<in> set (needed workflow_jobs ''Deprecation_Messages_and_Coverage'').
         \<sigma> d = Finished True))"
proof (intro conjI impI)
  show "map job_id workflow_jobs =
     [''Checks'', ''MachineLearning'', ''Tutorials'', ''Deprecation_Messages_and_Coverage'']"
    by (simp add: workflow_jobs_def)
  show "needs (workflow_jobs ! 3) = [''Checks'', ''MachineLearning'', ''Tutorials'']"
    by (simp add: workflow_jobs_def)
  show "instances_named workflow_jobs ''Deprecation_Messages_and_Coverage'' = [coverage_job]"
    by (rule instances_of_jobs)
  show "needed workflow_jobs ''Deprecation_Messages_and_Coverage'' =
     instances_named workflow_jobs ''Checks'' @
     instances_named workflow_jobs ''MachineLearning'' @
     instances_named workflow_jobs ''Tutorials''"
    by (simp add: needed_coverage instances_of_jobs)
next
  assume a: "run_actions workflow_jobs all_waiting as = Some \<sigma> \<and> started (\<sigma> coverage_job)"
  have self: "\<And>k. (''Deprecation_Messages_and_Coverage'', k)
                \<notin> set (needed workflow_jobs ''Deprecation_Messages_and_Coverage'')"
    by (simp add: needed_coverage)
  have init: "\<And>k. started (all_waiting (''Deprecation_Messages_and_Coverage'', k)) \<Longrightarrow>
                list_all (\<lambda>d. all_waiting d = Finished True)
                  (needed workflow_jobs ''Deprecation_Messages_and_Coverage'')"
    by (simp add: all_waiting_def)
  have "list_all (\<lambda>d. \<sigma> d = Finished True)
          (needed workflow_jobs ''Deprecation_Messages_and_Coverage'')"
    using run_actions_keep_needed [of workflow_jobs all_waiting as \<sigma>
        "''Deprecation_Messages_and_Coverage''" 0] a self init
    by (simp add: coverage_job_def)
  then show "\<forall>d \<in> set (needed workflow_jobs ''Deprecation_Messages_and_Coverage'').
         \<sigma> d = Finished True"
    by (simp add: list_all_iff)
qed

theorem coverage_job_starts_last_witness:
  "\<exists>\<sigma>. run_actions workflow_jobs all_waiting full_schedule = Some \<sigma> \<and>
        \<sigma> coverage_job = Running \<and>
        \<sigma> (''MachineLearning'', 8) = Finished True \<and>
        (\<forall>d \<in> set (needed workflow_jobs ''Deprecation_Messages_and_Coverage'').
           \<sigma> d = Finished True)"
proof -
  have "case run_actions workflow_jobs all_waiting full_schedule of
          None \<Rightarrow> False
        | Some \<sigma> \<Rightarrow> \<sigma> coverage_job = Running"
    by code_simp
  then obtain \<sigma> where s: "run_actions workflow_jobs all_waiting full_schedule = Some \<sigma>"
    and r: "\<sigma> coverage_job = Running"
    by (auto split: option.splits)
  have "started (\<sigma> coverage_job)" using r by simp
  then have all: "\<forall>d \<in> set (needed workflow_jobs ''Deprecation_Messages_and_Coverage'').
                    \<sigma> d = Finished True"
    using coverage_job_starts_last [of full_schedule \<sigma>] s by blast
  then have "\<sigma> (''MachineLearning'', 8) = Finished True"
    by (simp add: needed_coverage)
  then show ?thesis using s r all by blast
qed

section \<open>Properties of the notebook\<close>

lemma run_notebook_result:
  "case run_notebook n of
     Inl err \<Rightarrow> False
   | Inr st \<Rightarrow>
       calls st =
         [(''fit'', [Arr [15, 2], Arr [15]]),
          (''score'', [Arr [5, 2], Arr [5]]),
          (''predict'', [Arr [n * n, 2]])] \<and>
       map (map_of (vars st))
         [''train_features'', ''train_labels'', ''test_features'', ''test_labels'',
          ''meshgrid_features''] =
         [Some (Arr [15, 2]), Some (Arr [15]), Some (Arr [5, 2]), Some (Arr [5]),
          Some (Arr [n * n, 2])]"
  by (simp add: run_notebook_def notebook_def cell_data_def cell_split_def cell_parameters_def
      cell_kernel_def cell_train_def cell_grid_def cell_predict_def cell_plot_def
      cell_versions_def call_fn_def call_method_def bind_var_def)

lemma calls_before_training: "calls_after n 4 = []"
  by (simp add: calls_after_def notebook_def cell_data_def cell_split_def cell_parameters_def
      cell_kernel_def call_fn_def call_method_def bind_var_def)

text \<open>
  C7: the notebook runs to its end without a name or unpacking error, and the calls it
  makes on the classifier are, in this order, \<^verbatim>\<open>fit\<close> with the training features
  \<open>(15, 2)\<close> and labels \<open>(15)\<close>, \<^verbatim>\<open>score\<close> with the test features \<open>(5, 2)\<close> and labels
  \<open>(5)\<close>, and \<^verbatim>\<open>predict\<close> with the grid features \<open>(n * n, 2)\<close>. \<^verbatim>\<open>fit\<close> is called once,
  and nothing is called on the classifier in the cells before the one that fits.
\<close>

theorem notebook_fits_then_scores_then_predicts:
  "\<exists>st. run_notebook n = Inr st \<and>
        calls st =
          [(''fit'', [Arr [15, 2], Arr [15]]),
           (''score'', [Arr [5, 2], Arr [5]]),
           (''predict'', [Arr [n * n, 2]])] \<and>
        length (filter (\<lambda>c. fst c = ''fit'') (calls st)) = 1 \<and>
        map (map_of (vars st))
          [''train_features'', ''train_labels'', ''test_features'', ''test_labels'',
           ''meshgrid_features''] =
          [Some (Arr [15, 2]), Some (Arr [15]), Some (Arr [5, 2]), Some (Arr [5]),
           Some (Arr [n * n, 2])] \<and>
        calls_after n 4 = [] \<and>
        notebook ! 4 = cell_train"
proof -
  obtain st where st: "run_notebook n = Inr st"
    and c: "calls st =
          [(''fit'', [Arr [15, 2], Arr [15]]),
           (''score'', [Arr [5, 2], Arr [5]]),
           (''predict'', [Arr [n * n, 2]])]"
    and v: "map (map_of (vars st))
          [''train_features'', ''train_labels'', ''test_features'', ''test_labels'',
           ''meshgrid_features''] =
          [Some (Arr [15, 2]), Some (Arr [15]), Some (Arr [5, 2]), Some (Arr [5]),
           Some (Arr [n * n, 2])]"
    using run_notebook_result [of n] by (cases "run_notebook n") auto
  have f: "length (filter (\<lambda>c. fst c = ''fit'') (calls st)) = 1"
    unfolding c by simp
  have t: "notebook ! 4 = cell_train" by (simp add: notebook_def)
  have b: "calls_after n 4 = []" by (rule calls_before_training)
  show ?thesis
    by (intro exI [of _ st] conjI) (fact st, fact c, fact f, fact v, fact b, fact t)
qed

end
